theory Spec2Isabelle
  imports Complex_Main "HOL-Library.Word"
begin

section \<open>The alarm controller of main.cpp\<close>

text \<open>
  The program is one cooperative loop over global variables: each pass runs
  \<open>alarmActivationUpdate\<close>, \<open>alarmDeactivationUpdate\<close> and \<open>uartTask\<close>. The
  globals and the output pins are the fields of one record, every function takes
  the record and the values the input pins and the serial port deliver during the
  pass, and returns the record updated.
\<close>

subsection \<open>Machine arithmetic\<close>

text \<open>
  The temperature path computes in \<open>float\<close> and \<open>double\<close>. Nothing is assumed
  about that arithmetic: the operations the source applies are the fields of a
  record that every function takes as its first argument, \<open>'f\<close> being the type of
  \<open>float\<close> values and \<open>'d\<close> the type of \<open>double\<close> values. \<open>d_lit\<close> is the value the
  compiler gives a decimal literal, \<open>f_of_int\<close> the conversion of an \<open>int\<close> operand
  to \<open>float\<close>.
\<close>

record ('f, 'd) fpu =
  f_of_double :: "'d \<Rightarrow> 'f"
  d_of_float :: "'f \<Rightarrow> 'd"
  f_of_int :: "int \<Rightarrow> 'f"
  d_lit :: "real \<Rightarrow> 'd"
  f_add :: "'f \<Rightarrow> 'f \<Rightarrow> 'f"
  f_div :: "'f \<Rightarrow> 'f \<Rightarrow> 'f"
  f_gt :: "'f \<Rightarrow> 'f \<Rightarrow> bool"
  d_add :: "'d \<Rightarrow> 'd \<Rightarrow> 'd"
  d_mul :: "'d \<Rightarrow> 'd \<Rightarrow> 'd"
  d_div :: "'d \<Rightarrow> 'd \<Rightarrow> 'd"

text \<open>Exact arithmetic on the reals: the instance used to run the model.\<close>

definition exact_fpu :: "(real, real) fpu" where
  "exact_fpu = \<lparr> f_of_double = (\<lambda>x. x), d_of_float = (\<lambda>x. x), f_of_int = real_of_int,
     d_lit = (\<lambda>x. x), f_add = (+), f_div = (/), f_gt = (\<lambda>x y. x > y),
     d_add = (+), d_mul = (*), d_div = (/) \<rparr>"

subsection \<open>Constants\<close>

text \<open>
  Modelled from the spec: \<open>arm_book_lib.h\<close>, which defines \<open>ON\<close>, \<open>OFF\<close> and \<open>LOW\<close>,
  is not among the sources. The spec has the alarm "ON/OFF" and the siren "forced
  LOW": \<open>OFF\<close> and \<open>LOW\<close> are the logic level false, \<open>ON\<close> is true.
\<close>

definition OFF :: bool where "OFF = False"
definition ON :: bool where "ON = True"
definition LOW :: bool where "LOW = False"

definition NUMBER_OF_KEYS :: int where "NUMBER_OF_KEYS = 4"
definition BLINKING_TIME_GAS_ALARM :: "32 word" where "BLINKING_TIME_GAS_ALARM = 1000"
definition BLINKING_TIME_OVER_TEMP_ALARM :: "32 word" where "BLINKING_TIME_OVER_TEMP_ALARM = 500"
definition BLINKING_TIME_GAS_AND_OVER_TEMP_ALARM :: "32 word" where
  "BLINKING_TIME_GAS_AND_OVER_TEMP_ALARM = 100"
definition NUMBER_OF_AVG_SAMPLES :: int where "NUMBER_OF_AVG_SAMPLES = 100"
definition OVER_TEMP_LEVEL :: int where "OVER_TEMP_LEVEL = 50"
definition TIME_INCREMENT_MS :: "32 word" where "TIME_INCREMENT_MS = 10"

subsection \<open>Globals, pins and inputs\<close>

text \<open>
  \<open>numberOfIncorrectCodes\<close> and \<open>accumulatedTimeAlarm\<close> are C \<open>int\<close>s that the
  program increments without a bound of its own: they are 32-bit words, read as
  two's complement by the signed comparisons \<open><s\<close> and \<open>\<le>s\<close>, and \<open>+\<close> wraps. The
  two indices stay within their arrays and are \<open>int\<close>. The arrays are lists;
  \<open>lm35SampleIndex\<close> is the static local of \<open>alarmActivationUpdate\<close>. The last five
  fields are the output pins: the three LEDs, and the direction and the output
  latch of the siren pin.
\<close>

record 'f state =
  alarmState :: bool
  incorrectCode :: bool
  overTempDetector :: bool
  numberOfIncorrectCodes :: "32 word"
  buttonBeingCompared :: int
  codeSequence :: "int list"
  buttonsPressed :: "int list"
  accumulatedTimeAlarm :: "32 word"
  gasDetectorState :: bool
  overTempDetectorState :: bool
  potentiometerReading :: 'f
  lm35ReadingsAverage :: 'f
  lm35ReadingsSum :: 'f
  lm35ReadingsArray :: "'f list"
  lm35TempC :: 'f
  lm35SampleIndex :: int
  alarmLed :: bool
  incorrectCodeLed :: bool
  systemBlockedLed :: bool
  sirenPinIsOutput :: bool
  sirenPinLevel :: bool

text \<open>
  What one pass of the loop reads: the two analog inputs, the digital input pins
  (one sample of each pin for the pass), and \<open>uartRx\<close>, the bytes the serial port
  delivers to the reads of this pass, in order. An empty \<open>uartRx\<close> is
  \<open>readable()\<close> returning false.
\<close>

record 'f inputs =
  lm35 :: 'f
  potentiometer :: 'f
  mq2 :: bool
  alarmTestButton :: bool
  aButton :: bool
  bButton :: bool
  cButton :: bool
  dButton :: bool
  enterButton :: bool
  uartRx :: "char list"

text \<open>
  What a pass sends: \<open>Printf\<close> for the \<open>printf\<close> call, \<open>Write\<close> for the bytes of a
  \<open>uartUsb.write\<close> of a literal, and \<open>WriteFormatted fmt x\<close> for \<open>sprintf(str, fmt, x)\<close>
  followed by \<open>uartUsb.write(str, 100)\<close>.
\<close>

datatype 'f serial_out = Printf string | Write string | WriteFormatted string 'f

definition CRLF :: string where
  "CRLF = [CHR 0x0D, CHR 0x0A]"

definition uartUsb_write :: "string \<Rightarrow> nat \<Rightarrow> 'f serial_out" where
  "uartUsb_write str n = Write (take n str)"

subsection \<open>Start-up\<close>

definition globalsInit :: "('f, 'd) fpu \<Rightarrow> 'f state" where
  "globalsInit A = \<lparr> alarmState = OFF, incorrectCode = False, overTempDetector = OFF,
     numberOfIncorrectCodes = 0, buttonBeingCompared = 0,
     codeSequence = [1, 1, 0, 0], buttonsPressed = [0, 0, 0, 0],
     accumulatedTimeAlarm = 0, gasDetectorState = OFF, overTempDetectorState = OFF,
     potentiometerReading = f_of_double A (d_lit A 0),
     lm35ReadingsAverage = f_of_double A (d_lit A 0),
     lm35ReadingsSum = f_of_double A (d_lit A 0),
     lm35ReadingsArray = replicate (nat NUMBER_OF_AVG_SAMPLES) (f_of_double A (d_lit A 0)),
     lm35TempC = f_of_double A (d_lit A 0),
     lm35SampleIndex = 0,
     alarmLed = False, incorrectCodeLed = False, systemBlockedLed = False,
     sirenPinIsOutput = False, sirenPinLevel = False \<rparr>"

definition inputsInit :: "'f state \<Rightarrow> 'f state" where
  "inputsInit s = s\<lparr>sirenPinIsOutput := False\<rparr>"

definition outputsInit :: "'f state \<Rightarrow> 'f state" where
  "outputsInit s = s\<lparr>alarmLed := OFF, incorrectCodeLed := OFF, systemBlockedLed := OFF\<rparr>"

subsection \<open>Temperature conversions\<close>

definition analogReadingScaledWithTheLM35Formula :: "('f, 'd) fpu \<Rightarrow> 'f \<Rightarrow> 'f" where
  "analogReadingScaledWithTheLM35Formula A analogReading =
     f_of_double A (d_div A (d_mul A (d_of_float A analogReading) (d_lit A 3.3)) (d_lit A 0.01))"

definition celsiusToFahrenheit :: "('f, 'd) fpu \<Rightarrow> 'f \<Rightarrow> 'f" where
  "celsiusToFahrenheit A tempInCelsiusDegrees =
     f_of_double A (d_add A (d_div A (d_mul A (d_of_float A tempInCelsiusDegrees) (d_lit A 9))
                                   (d_lit A 5)) (d_lit A 32))"

subsection \<open>alarmActivationUpdate\<close>

text \<open>Lines 239 to 243: store the reading at the cursor and advance the cursor.\<close>

definition lm35Sample :: "'f state \<Rightarrow> 'f inputs \<Rightarrow> 'f state" where
  "lm35Sample s inp =
     (let s1 = s\<lparr>lm35ReadingsArray := (lm35ReadingsArray s)[nat (lm35SampleIndex s) := lm35 inp]\<rparr>;
          s2 = s1\<lparr>lm35SampleIndex := lm35SampleIndex s1 + 1\<rparr>
      in if lm35SampleIndex s2 \<ge> NUMBER_OF_AVG_SAMPLES then s2\<lparr>lm35SampleIndex := 0\<rparr> else s2)"

text \<open>Lines 246 to 248: the summing loop, \<open>i\<close> being its local counter.\<close>

function lm35SumLoop :: "('f, 'd) fpu \<Rightarrow> int \<Rightarrow> 'f state \<Rightarrow> 'f state" where
  "lm35SumLoop A i s =
     (if i < NUMBER_OF_AVG_SAMPLES
      then lm35SumLoop A (i + 1)
             (s\<lparr>lm35ReadingsSum := f_add A (lm35ReadingsSum s) (lm35ReadingsArray s ! nat i)\<rparr>)
      else s)"
  by pat_completeness auto
termination
  by (relation "measure (\<lambda>(A, i, s). nat (NUMBER_OF_AVG_SAMPLES - i))") auto

text \<open>Lines 245 to 256: the average, the temperature and the over-temperature flag.\<close>

definition lm35Average :: "('f, 'd) fpu \<Rightarrow> 'f state \<Rightarrow> 'f state" where
  "lm35Average A s =
     (let s1 = lm35SumLoop A 0 (s\<lparr>lm35ReadingsSum := f_of_double A (d_lit A 0)\<rparr>);
          s2 = s1\<lparr>lm35ReadingsAverage :=
                    f_div A (lm35ReadingsSum s1) (f_of_int A NUMBER_OF_AVG_SAMPLES)\<rparr>;
          s3 = s2\<lparr>lm35TempC := analogReadingScaledWithTheLM35Formula A (lm35ReadingsAverage s2)\<rparr>
      in if f_gt A (lm35TempC s3) (f_of_int A OVER_TEMP_LEVEL)
         then s3\<lparr>overTempDetector := ON\<rparr>
         else s3\<lparr>overTempDetector := OFF\<rparr>)"

text \<open>Lines 258 to 270: the three causes, each of which switches the alarm on.\<close>

definition alarmCauses :: "'f state \<Rightarrow> 'f inputs \<Rightarrow> 'f state" where
  "alarmCauses s inp =
     (let s1 = (if \<not> mq2 inp then s\<lparr>gasDetectorState := ON, alarmState := ON\<rparr> else s);
          s2 = (if overTempDetector s1
                then s1\<lparr>overTempDetectorState := ON, alarmState := ON\<rparr> else s1)
      in if alarmTestButton inp
         then s2\<lparr>overTempDetectorState := ON, gasDetectorState := ON, alarmState := ON\<rparr>
         else s2)"

text \<open>Lines 277 to 280 and their two siblings: the toggle at a blinking time.\<close>

definition blinkAt :: "32 word \<Rightarrow> 'f state \<Rightarrow> 'f state" where
  "blinkAt blinkingTime s =
     (if blinkingTime \<le>s accumulatedTimeAlarm s
      then (let s1 = s\<lparr>accumulatedTimeAlarm := 0\<rparr> in s1\<lparr>alarmLed := \<not> alarmLed s1\<rparr>)
      else s)"

text \<open>Lines 271 to 297: the siren and the blinking LED.\<close>

definition alarmOutputs :: "'f state \<Rightarrow> 'f state" where
  "alarmOutputs s =
     (if alarmState s
      then (let s1 = s\<lparr>accumulatedTimeAlarm := accumulatedTimeAlarm s + TIME_INCREMENT_MS\<rparr>;
                s2 = s1\<lparr>sirenPinIsOutput := True\<rparr>;
                s3 = s2\<lparr>sirenPinLevel := LOW\<rparr>
            in if gasDetectorState s3 \<and> overTempDetectorState s3
               then blinkAt BLINKING_TIME_GAS_AND_OVER_TEMP_ALARM s3
               else if gasDetectorState s3 then blinkAt BLINKING_TIME_GAS_ALARM s3
               else if overTempDetectorState s3 then blinkAt BLINKING_TIME_OVER_TEMP_ALARM s3
               else s3)
      else s\<lparr>alarmLed := OFF, gasDetectorState := OFF, overTempDetectorState := OFF,
              sirenPinIsOutput := False\<rparr>)"

definition alarmActivationUpdate :: "('f, 'd) fpu \<Rightarrow> 'f state \<Rightarrow> 'f inputs \<Rightarrow> 'f state" where
  "alarmActivationUpdate A s inp = alarmOutputs (alarmCauses (lm35Average A (lm35Sample s inp)) inp)"

subsection \<open>areEqual and alarmDeactivationUpdate\<close>

function areEqualLoop :: "int \<Rightarrow> 'f state \<Rightarrow> bool" where
  "areEqualLoop i s =
     (if i < NUMBER_OF_KEYS
      then (if codeSequence s ! nat i \<noteq> buttonsPressed s ! nat i then False
            else areEqualLoop (i + 1) s)
      else True)"
  by pat_completeness auto
termination
  by (relation "measure (\<lambda>(i, s). nat (NUMBER_OF_KEYS - i))") auto

definition areEqual :: "'f state \<Rightarrow> bool" where
  "areEqual s = areEqualLoop 0 s"

text \<open>Lines 307 to 310: a pin read as an \<open>int\<close> is 1 when high and 0 when low.\<close>

definition readButtons :: "'f state \<Rightarrow> 'f inputs \<Rightarrow> 'f state" where
  "readButtons s inp =
     (let s1 = s\<lparr>buttonsPressed := (buttonsPressed s)[0 := of_bool (aButton inp)]\<rparr>;
          s2 = s1\<lparr>buttonsPressed := (buttonsPressed s1)[1 := of_bool (bButton inp)]\<rparr>;
          s3 = s2\<lparr>buttonsPressed := (buttonsPressed s2)[2 := of_bool (cButton inp)]\<rparr>
      in s3\<lparr>buttonsPressed := (buttonsPressed s3)[3 := of_bool (dButton inp)]\<rparr>)"

definition alarmDeactivationUpdate :: "'f state \<Rightarrow> 'f inputs \<Rightarrow> 'f state" where
  "alarmDeactivationUpdate s inp =
     (if numberOfIncorrectCodes s <s 5
      then (let s1 = (if aButton inp \<and> bButton inp \<and> cButton inp \<and> dButton inp
                         \<and> \<not> enterButton inp
                      then s\<lparr>incorrectCodeLed := OFF\<rparr> else s)
            in if enterButton inp \<and> \<not> incorrectCodeLed s1 \<and> alarmState s1
               then (let s2 = readButtons s1 inp
                     in if areEqual s2
                        then s2\<lparr>alarmState := OFF, numberOfIncorrectCodes := 0\<rparr>
                        else s2\<lparr>incorrectCodeLed := ON,
                                numberOfIncorrectCodes := numberOfIncorrectCodes s2 + 1\<rparr>)
               else s1)
      else s\<lparr>systemBlockedLed := ON\<rparr>)"

subsection \<open>uartTask\<close>

text \<open>
  A read of the serial port blocks until a byte arrives. The functions below
  return \<open>None\<close> when \<open>uartRx\<close> ends before a blocking read is served, and
  otherwise the new state, what was sent, and the bytes left unread.
\<close>

definition enterCodePrompt :: "'f serial_out list" where
  "enterCodePrompt =
     [uartUsb_write (''Please enter the code sequence.'' @ CRLF) 33,
      uartUsb_write ''First enter 'A', then 'B', then 'C', and '' 41,
      uartUsb_write (''finally 'D' button'' @ CRLF) 20,
      uartUsb_write ''In each case type 1 for pressed or 0 for '' 41,
      uartUsb_write (''not pressed'' @ CRLF) 13,
      uartUsb_write ''For example, for 'A' = pressed, '' 32,
      uartUsb_write (CHR 0x27 # ''B' = pressed, 'C' = not pressed, '') 34,
      uartUsb_write (CHR 0x27 # ''D' = not pressed, enter '1', then '1', '') 40,
      uartUsb_write (''then '0', and finally '0'' @ [CHR 0x27] @ CRLF @ CRLF) 29]"

definition newCodePrompt :: "'f serial_out list" where
  "newCodePrompt =
     [uartUsb_write (''Please enter new code sequence'' @ CRLF) 32,
      uartUsb_write ''First enter 'A', then 'B', then 'C', and '' 41,
      uartUsb_write (''finally 'D' button'' @ CRLF) 20,
      uartUsb_write ''In each case type 1 for pressed or 0 for not '' 45,
      uartUsb_write (''pressed'' @ CRLF) 9,
      uartUsb_write ''For example, for 'A' = pressed, 'B' = pressed,'' 46,
      uartUsb_write '' 'C' = not pressed,'' 19,
      uartUsb_write (CHR 0x27 # ''D' = not pressed, enter '1', then '1', '') 40,
      uartUsb_write (''then '0', and finally '0'' @ [CHR 0x27] @ CRLF @ CRLF) 29]"

definition availableCommands :: "'f serial_out list" where
  "availableCommands =
     [uartUsb_write (''Available commands:'' @ CRLF) 21,
      uartUsb_write (''Press '1' to get the alarm state'' @ CRLF) 34,
      uartUsb_write (''Press '2' to get the gas detector state'' @ CRLF) 41,
      uartUsb_write (''Press '3' to get the over temperature detector state'' @ CRLF) 54,
      uartUsb_write (''Press '4' to enter the code sequence'' @ CRLF) 38,
      uartUsb_write (''Press '5' to enter a new code'' @ CRLF) 31,
      uartUsb_write (''Press 'P' or 'p' to get potentiometer reading'' @ CRLF) 47,
      uartUsb_write (''Press 'f' or 'F' to get lm35 reading in Fahrenheit'' @ CRLF) 52,
      uartUsb_write (''Press 'c' or 'C' to get lm35 reading in Celsius'' @ CRLF @ CRLF) 51]"

text \<open>Lines 370 to 388: four bytes are read, echoed and compared with the code.\<close>

fun enterCodeLoop ::
  "'f state \<Rightarrow> char list \<Rightarrow> ('f state \<times> 'f serial_out list \<times> char list) option" where
  "enterCodeLoop s rx =
     (if buttonBeingCompared s < NUMBER_OF_KEYS
      then (case rx of
              [] \<Rightarrow> None
            | receivedChar # rx' \<Rightarrow>
                (let s1 = (if receivedChar = CHR ''1''
                           then (if codeSequence s ! nat (buttonBeingCompared s) \<noteq> 1
                                 then s\<lparr>incorrectCode := True\<rparr> else s)
                           else if receivedChar = CHR ''0''
                           then (if codeSequence s ! nat (buttonBeingCompared s) \<noteq> 0
                                 then s\<lparr>incorrectCode := True\<rparr> else s)
                           else s\<lparr>incorrectCode := True\<rparr>)
                 in case enterCodeLoop (s1\<lparr>buttonBeingCompared := buttonBeingCompared s1 + 1\<rparr>) rx' of
                      None \<Rightarrow> None
                    | Some (s2, out, rest) \<Rightarrow> Some (s2, uartUsb_write ''*'' 1 # out, rest)))
      else Some (s, [], rx))"

text \<open>Lines 413 to 425: four bytes are read, echoed and stored in the code.\<close>

fun newCodeLoop ::
  "'f state \<Rightarrow> char list \<Rightarrow> ('f state \<times> 'f serial_out list \<times> char list) option" where
  "newCodeLoop s rx =
     (if buttonBeingCompared s < NUMBER_OF_KEYS
      then (case rx of
              [] \<Rightarrow> None
            | receivedChar # rx' \<Rightarrow>
                (let s1 = (if receivedChar = CHR ''1''
                           then s\<lparr>codeSequence := (codeSequence s)[nat (buttonBeingCompared s) := 1]\<rparr>
                           else if receivedChar = CHR ''0''
                           then s\<lparr>codeSequence := (codeSequence s)[nat (buttonBeingCompared s) := 0]\<rparr>
                           else s)
                 in case newCodeLoop (s1\<lparr>buttonBeingCompared := buttonBeingCompared s1 + 1\<rparr>) rx' of
                      None \<Rightarrow> None
                    | Some (s2, out, rest) \<Rightarrow> Some (s2, uartUsb_write ''*'' 1 # out, rest)))
      else Some (s, [], rx))"

declare lm35SumLoop.simps [simp del]
declare areEqualLoop.simps [simp del]
declare enterCodeLoop.simps [simp del]
declare newCodeLoop.simps [simp del]

text \<open>Lines 357 to 400: the command '4'.\<close>

definition uartEnterCode ::
  "'f state \<Rightarrow> char list \<Rightarrow> ('f state \<times> 'f serial_out list \<times> char list) option" where
  "uartEnterCode s rx =
     (case enterCodeLoop (s\<lparr>incorrectCode := False, buttonBeingCompared := 0\<rparr>) rx of
        None \<Rightarrow> None
      | Some (s1, echo, rest) \<Rightarrow>
          if incorrectCode s1 = False
          then Some (s1\<lparr>alarmState := OFF, incorrectCodeLed := OFF, numberOfIncorrectCodes := 0\<rparr>,
                     enterCodePrompt @ echo
                       @ [uartUsb_write (CRLF @ ''The code is correct'' @ CRLF @ CRLF) 25],
                     rest)
          else Some (s1\<lparr>incorrectCodeLed := ON,
                         numberOfIncorrectCodes := numberOfIncorrectCodes s1 + 1\<rparr>,
                     enterCodePrompt @ echo
                       @ [uartUsb_write (CRLF @ ''The code is incorrect'' @ CRLF @ CRLF) 27],
                     rest))"

text \<open>Lines 402 to 428: the command '5'.\<close>

definition uartNewCode ::
  "'f state \<Rightarrow> char list \<Rightarrow> ('f state \<times> 'f serial_out list \<times> char list) option" where
  "uartNewCode s rx =
     (case newCodeLoop (s\<lparr>buttonBeingCompared := 0\<rparr>) rx of
        None \<Rightarrow> None
      | Some (s1, echo, rest) \<Rightarrow>
          Some (s1, newCodePrompt @ echo
                      @ [uartUsb_write (CRLF @ ''New code generated'' @ CRLF @ CRLF) 24],
                rest))"

text \<open>The switch of lines 332 to 457, on the byte that was read.\<close>

definition uartCommand ::
  "('f, 'd) fpu \<Rightarrow> 'f state \<Rightarrow> 'f inputs \<Rightarrow> char \<Rightarrow> char list
     \<Rightarrow> ('f state \<times> 'f serial_out list \<times> char list) option" where
  "uartCommand A s inp receivedChar rx =
     (if receivedChar = CHR ''1''
      then Some (s, [if alarmState s
                     then uartUsb_write (''The alarm is activated'' @ CRLF) 24
                     else uartUsb_write (''The alarm is not activated'' @ CRLF) 28], rx)
      else if receivedChar = CHR ''2''
      then Some (s, [if \<not> mq2 inp
                     then uartUsb_write (''Gas is being detected'' @ CRLF) 22
                     else uartUsb_write (''Gas is not being detected'' @ CRLF) 27], rx)
      else if receivedChar = CHR ''3''
      then Some (s, [if overTempDetector s
                     then uartUsb_write (''Temperature is above the maximum level'' @ CRLF) 40
                     else uartUsb_write (''Temperature is below the maximum level'' @ CRLF) 40], rx)
      else if receivedChar = CHR ''4'' then uartEnterCode s rx
      else if receivedChar = CHR ''5'' then uartNewCode s rx
      else if receivedChar = CHR ''p'' \<or> receivedChar = CHR ''P''
      then (let s1 = s\<lparr>potentiometerReading := potentiometer inp\<rparr>
            in Some (s1, [WriteFormatted (''Potentiometer: %.2f'' @ CRLF) (potentiometerReading s1)],
                     rx))
      else if receivedChar = CHR ''c'' \<or> receivedChar = CHR ''C''
      then Some (s, [WriteFormatted (''Temperature: %.2f '' @ [CHR 0xB0] @ '' C'' @ CRLF)
                       (lm35TempC s)], rx)
      else if receivedChar = CHR ''f'' \<or> receivedChar = CHR ''F''
      then Some (s, [WriteFormatted (''Temperature: %.2f '' @ [CHR 0xB0] @ '' F'' @ CRLF)
                       (celsiusToFahrenheit A (lm35TempC s))], rx)
      else Some (s, availableCommands, rx))"

definition uartTask ::
  "('f, 'd) fpu \<Rightarrow> 'f state \<Rightarrow> 'f inputs
     \<Rightarrow> ('f state \<times> 'f serial_out list \<times> char list) option" where
  "uartTask A s inp =
     (case uartRx inp of
        [] \<Rightarrow> Some (s, [Printf ''UART Task initiated.''], [])
      | receivedChar # rx \<Rightarrow>
          (case uartCommand A s inp receivedChar rx of
             None \<Rightarrow> None
           | Some (s1, out, rest) \<Rightarrow> Some (s1, Printf ''UART Task initiated.'' # out, rest)))"

subsection \<open>The main loop\<close>

text \<open>One pass of the loop of \<open>main\<close>; the delay at its end changes no variable.\<close>

definition mainLoopPass ::
  "('f, 'd) fpu \<Rightarrow> 'f state \<Rightarrow> 'f inputs
     \<Rightarrow> ('f state \<times> 'f serial_out list \<times> char list) option" where
  "mainLoopPass A s inp =
     uartTask A (alarmDeactivationUpdate (alarmActivationUpdate A s inp) inp) inp"

text \<open>
  The loop never ends: \<open>mainLoop\<close> runs it for as many passes as there are inputs
  and returns the state after the last one, or \<open>None\<close> when a pass stays in a
  blocking read. Each pass is given the bytes it reads in its own \<open>uartRx\<close>.
\<close>

fun mainLoop :: "('f, 'd) fpu \<Rightarrow> 'f state \<Rightarrow> 'f inputs list \<Rightarrow> 'f state option" where
  "mainLoop A s [] = Some s"
| "mainLoop A s (inp # inps) =
     (case mainLoopPass A s inp of
        None \<Rightarrow> None
      | Some (s1, out, rest) \<Rightarrow> mainLoop A s1 inps)"

definition main :: "('f, 'd) fpu \<Rightarrow> 'f inputs list \<Rightarrow> 'f state option" where
  "main A inps = mainLoop A (outputsInit (inputsInit (globalsInit A))) inps"

subsection \<open>Notions the properties are stated with\<close>

text \<open>
  A received byte agrees with a digit of the code when it is the character of
  that digit; \<open>storeDigit\<close> is the digit a received byte leaves in a position of
  the code when a new code is entered.
\<close>

definition digitMatches :: "char \<Rightarrow> int \<Rightarrow> bool" where
  "digitMatches c v = ((c = CHR ''1'' \<and> v = 1) \<or> (c = CHR ''0'' \<and> v = 0))"

definition storeDigit :: "char \<Rightarrow> int \<Rightarrow> int" where
  "storeDigit c v = (if c = CHR ''1'' then 1 else if c = CHR ''0'' then 0 else v)"

text \<open>
  The arrays have the sizes of their declarations and the cursor of the sample
  buffer is inside it.
\<close>

definition stateOk :: "'f state \<Rightarrow> bool" where
  "stateOk s = (length (codeSequence s) = 4 \<and> length (buttonsPressed s) = 4 \<and>
                length (lm35ReadingsArray s) = 100 \<and>
                0 \<le> lm35SampleIndex s \<and> lm35SampleIndex s < 100)"

definition keypadCodeMatch :: "'f state \<Rightarrow> 'f inputs \<Rightarrow> bool" where
  "keypadCodeMatch s inp =
     (numberOfIncorrectCodes s <s 5 \<and> enterButton inp \<and> \<not> incorrectCodeLed s \<and> alarmState s \<and>
      codeSequence s = [of_bool (aButton inp), of_bool (bButton inp),
                        of_bool (cButton inp), of_bool (dButton inp)])"

definition serialCodeMatch :: "'f state \<Rightarrow> 'f inputs \<Rightarrow> bool" where
  "serialCodeMatch s inp =
     (case uartRx inp of
        [] \<Rightarrow> False
      | receivedChar # rx \<Rightarrow>
          receivedChar = CHR ''4'' \<and> list_all2 digitMatches (take 4 rx) (codeSequence s))"

text \<open>
  A run in which no pass enters a matching code, by the keypad or by the serial
  command '4'.
\<close>

fun noCodeMatch :: "('f, 'd) fpu \<Rightarrow> 'f state \<Rightarrow> 'f inputs list \<Rightarrow> bool" where
  "noCodeMatch A s [] = True"
| "noCodeMatch A s (inp # inps) =
     (\<not> keypadCodeMatch s inp \<and> \<not> serialCodeMatch s inp \<and>
      (case mainLoopPass A s inp of
         None \<Rightarrow> True
       | Some (s1, out, rest) \<Rightarrow> noCodeMatch A s1 inps))"

text \<open>
  The keypad path and the incorrect-code indicator. \<open>keypadEvaluates\<close> is the
  guard under which \<open>alarmDeactivationUpdate\<close> reads the buttons and compares
  them with the code (lines 302 to 306), on the state the function receives.
  The indicator is switched off at two places of the source: line 304, which
  \<open>keypadRelease\<close> guards (counter below 5, the four buttons high, enter low),
  and line 393, after a matching code of the serial command '4'.
  \<open>serialCodeEntry\<close> says that the pass receives the command '4'.
\<close>

definition keypadEvaluates :: "'f state \<Rightarrow> 'f inputs \<Rightarrow> bool" where
  "keypadEvaluates s inp =
     (numberOfIncorrectCodes s <s 5 \<and> enterButton inp
      \<and> \<not> incorrectCodeLed
            (if aButton inp \<and> bButton inp \<and> cButton inp \<and> dButton inp \<and> \<not> enterButton inp
             then s\<lparr>incorrectCodeLed := OFF\<rparr> else s)
      \<and> alarmState s)"

definition keypadRelease :: "'f state \<Rightarrow> 'f inputs \<Rightarrow> bool" where
  "keypadRelease s inp =
     (numberOfIncorrectCodes s <s 5
      \<and> aButton inp \<and> bButton inp \<and> cButton inp \<and> dButton inp \<and> \<not> enterButton inp)"

definition serialCodeEntry :: "'f inputs \<Rightarrow> bool" where
  "serialCodeEntry inp =
     (case uartRx inp of [] \<Rightarrow> False | receivedChar # rx \<Rightarrow> receivedChar = CHR ''4'')"

text \<open>A run no pass of which releases the indicator, by the keypad or by the serial port.\<close>

fun noRelease :: "('f, 'd) fpu \<Rightarrow> 'f state \<Rightarrow> 'f inputs list \<Rightarrow> bool" where
  "noRelease A s [] = True"
| "noRelease A s (inp # inps) =
     (\<not> keypadRelease s inp \<and> \<not> serialCodeMatch s inp \<and>
      (case mainLoopPass A s inp of
         None \<Rightarrow> True
       | Some (s1, out, rest) \<Rightarrow> noRelease A s1 inps))"

text \<open>
  A run in no pass of which the keypad path evaluates: the guard fails on the
  state that \<open>alarmActivationUpdate\<close> hands to \<open>alarmDeactivationUpdate\<close>.
\<close>

fun noKeypadEvaluation :: "('f, 'd) fpu \<Rightarrow> 'f state \<Rightarrow> 'f inputs list \<Rightarrow> bool" where
  "noKeypadEvaluation A s [] = True"
| "noKeypadEvaluation A s (inp # inps) =
     (\<not> keypadEvaluates (alarmActivationUpdate A s inp) inp \<and>
      (case mainLoopPass A s inp of
         None \<Rightarrow> True
       | Some (s1, out, rest) \<Rightarrow> noKeypadEvaluation A s1 inps))"

text \<open>
  Inputs of a pass in which nothing happens: no gas (the sensor reads high), a
  cool sensor, every button released, nothing received. The concrete runs below
  change single fields of it.
\<close>

definition quiet :: "real inputs" where
  "quiet = \<lparr> lm35 = 0.1, potentiometer = 0.5, mq2 = True, alarmTestButton = False,
     aButton = False, bButton = False, cButton = False, dButton = False,
     enterButton = False, uartRx = [] \<rparr>"

section \<open>Properties\<close>

subsection \<open>The loops\<close>

lemmas consts_defs = OFF_def ON_def LOW_def NUMBER_OF_KEYS_def BLINKING_TIME_GAS_ALARM_def
  BLINKING_TIME_OVER_TEMP_ALARM_def BLINKING_TIME_GAS_AND_OVER_TEMP_ALARM_def
  NUMBER_OF_AVG_SAMPLES_def OVER_TEMP_LEVEL_def TIME_INCREMENT_MS_def

lemma lm35SumLoop_frame:
  "lm35SumLoop A i s = s\<lparr>lm35ReadingsSum := lm35ReadingsSum (lm35SumLoop A i s)\<rparr>"
proof (induction A i s rule: lm35SumLoop.induct)
  case (1 A i s)
  show ?case
  proof (cases "i < NUMBER_OF_AVG_SAMPLES")
    case True
    let ?t = "s\<lparr>lm35ReadingsSum := f_add A (lm35ReadingsSum s) (lm35ReadingsArray s ! nat i)\<rparr>"
    have step: "lm35SumLoop A i s = lm35SumLoop A (i + 1) ?t"
      using True by (subst lm35SumLoop.simps) simp
    have "lm35SumLoop A (i + 1) ?t = ?t\<lparr>lm35ReadingsSum := lm35ReadingsSum (lm35SumLoop A (i + 1) ?t)\<rparr>"
      using "1.IH" [OF True] .
    then show ?thesis
      unfolding step by simp
  next
    case False
    then have "lm35SumLoop A i s = s"
      by (subst lm35SumLoop.simps) simp
    then show ?thesis by simp
  qed
qed

lemma lm35SumLoop_foldl:
  "0 \<le> i \<Longrightarrow> length (lm35ReadingsArray s) = 100 \<Longrightarrow>
   lm35ReadingsSum (lm35SumLoop A i s) =
     foldl (f_add A) (lm35ReadingsSum s) (drop (nat i) (lm35ReadingsArray s))"
proof (induction A i s rule: lm35SumLoop.induct)
  case (1 A i s)
  show ?case
  proof (cases "i < NUMBER_OF_AVG_SAMPLES")
    case True
    let ?t = "s\<lparr>lm35ReadingsSum := f_add A (lm35ReadingsSum s) (lm35ReadingsArray s ! nat i)\<rparr>"
    have step: "lm35SumLoop A i s = lm35SumLoop A (i + 1) ?t"
      using True by (subst lm35SumLoop.simps) simp
    have lt: "nat i < length (lm35ReadingsArray s)"
      using True "1.prems" by (simp add: NUMBER_OF_AVG_SAMPLES_def)
    have "lm35ReadingsSum (lm35SumLoop A (i + 1) ?t) =
            foldl (f_add A) (lm35ReadingsSum ?t) (drop (nat (i + 1)) (lm35ReadingsArray ?t))"
      using "1.IH" [OF True] "1.prems" by simp
    moreover have "nat (i + 1) = Suc (nat i)"
      using "1.prems" by simp
    ultimately show ?thesis
      unfolding step using Cons_nth_drop_Suc [OF lt, symmetric] by simp
  next
    case False
    then have "lm35SumLoop A i s = s"
      by (subst lm35SumLoop.simps) simp
    moreover have "drop (nat i) (lm35ReadingsArray s) = []"
      using False "1.prems" by (simp add: NUMBER_OF_AVG_SAMPLES_def)
    ultimately show ?thesis by simp
  qed
qed

lemma areEqualLoop_iff:
  "0 \<le> i \<Longrightarrow> length (codeSequence s) = 4 \<Longrightarrow> length (buttonsPressed s) = 4 \<Longrightarrow>
   areEqualLoop i s = (drop (nat i) (codeSequence s) = drop (nat i) (buttonsPressed s))"
proof (induction i s rule: areEqualLoop.induct)
  case (1 i s)
  show ?case
  proof (cases "i < NUMBER_OF_KEYS")
    case True
    have lt: "nat i < length (codeSequence s)" "nat i < length (buttonsPressed s)"
      using True "1.prems" by (simp_all add: NUMBER_OF_KEYS_def)
    have suc: "nat (i + 1) = Suc (nat i)"
      using "1.prems" by simp
    show ?thesis
    proof (cases "codeSequence s ! nat i = buttonsPressed s ! nat i")
      case eq: True
      have "areEqualLoop i s = areEqualLoop (i + 1) s"
        using True eq by (subst areEqualLoop.simps) simp
      also have "\<dots> = (drop (nat (i + 1)) (codeSequence s) = drop (nat (i + 1)) (buttonsPressed s))"
        using "1.IH" [OF True] eq "1.prems" by simp
      finally show ?thesis
        using eq Cons_nth_drop_Suc [OF lt(1), symmetric] Cons_nth_drop_Suc [OF lt(2), symmetric]
        by (simp add: suc)
    next
      case neq: False
      have "\<not> areEqualLoop i s"
        using True neq by (subst areEqualLoop.simps) simp
      then show ?thesis
        using neq Cons_nth_drop_Suc [OF lt(1), symmetric] Cons_nth_drop_Suc [OF lt(2), symmetric]
        by simp
    qed
  next
    case False
    then have "areEqualLoop i s"
      by (subst areEqualLoop.simps) simp
    moreover have "drop (nat i) (codeSequence s) = []" "drop (nat i) (buttonsPressed s) = []"
      using False "1.prems" by (simp_all add: NUMBER_OF_KEYS_def)
    ultimately show ?thesis by simp
  qed
qed

lemma enterCodeLoop_eq:
  "0 \<le> buttonBeingCompared s \<Longrightarrow> buttonBeingCompared s \<le> 4 \<Longrightarrow>
   length ds = nat (4 - buttonBeingCompared s) \<Longrightarrow> length (codeSequence s) = 4 \<Longrightarrow>
   enterCodeLoop s (ds @ rest) =
     Some (s\<lparr>incorrectCode := (incorrectCode s \<or>
                 \<not> list_all2 digitMatches ds (drop (nat (buttonBeingCompared s)) (codeSequence s))),
              buttonBeingCompared := 4\<rparr>,
           replicate (length ds) (uartUsb_write ''*'' 1), rest)"
proof (induction ds arbitrary: s)
  case Nil
  then have k: "buttonBeingCompared s = 4" by simp
  then have "enterCodeLoop s ([] @ rest) = Some (s, [], rest)"
    by (subst enterCodeLoop.simps) (simp add: NUMBER_OF_KEYS_def)
  moreover have "s\<lparr>incorrectCode := incorrectCode s, buttonBeingCompared := 4\<rparr> = s"
    using k by simp
  ultimately show ?case
    using Nil.prems k by simp
next
  case (Cons c ds)
  let ?k = "buttonBeingCompared s"
  have lt: "?k < 4" using Cons.prems by simp
  have nlt: "nat ?k < length (codeSequence s)" using Cons.prems lt by simp
  define bad where "bad = (\<not> digitMatches c (codeSequence s ! nat ?k))"
  define s1 where "s1 = (if bad then s\<lparr>incorrectCode := True\<rparr> else s)"
  let ?s2 = "s1\<lparr>buttonBeingCompared := ?k + 1\<rparr>"
  have unfold: "enterCodeLoop s ((c # ds) @ rest) =
      (case enterCodeLoop ?s2 (ds @ rest) of None \<Rightarrow> None
       | Some (s2, out, r) \<Rightarrow> Some (s2, uartUsb_write ''*'' 1 # out, r))"
    using lt by (subst enterCodeLoop.simps)
      (auto simp: NUMBER_OF_KEYS_def s1_def bad_def digitMatches_def Let_def)
  have ih: "enterCodeLoop ?s2 (ds @ rest) =
      Some (?s2\<lparr>incorrectCode := (incorrectCode ?s2 \<or>
                 \<not> list_all2 digitMatches ds (drop (nat (buttonBeingCompared ?s2)) (codeSequence ?s2))),
              buttonBeingCompared := 4\<rparr>,
           replicate (length ds) (uartUsb_write ''*'' 1), rest)"
    using Cons.prems lt by (intro Cons.IH) (auto simp: s1_def)
  have suc: "nat (?k + 1) = Suc (nat ?k)" using Cons.prems by simp
  have dr: "drop (nat ?k) (codeSequence s) = codeSequence s ! nat ?k # drop (Suc (nat ?k)) (codeSequence s)"
    using Cons_nth_drop_Suc [OF nlt] by simp
  show ?case
    unfolding unfold ih
    by (simp add: s1_def suc dr bad_def)
qed

lemma newCodeLoop_eq:
  "0 \<le> buttonBeingCompared s \<Longrightarrow> buttonBeingCompared s \<le> 4 \<Longrightarrow>
   length ds = nat (4 - buttonBeingCompared s) \<Longrightarrow> length (codeSequence s) = 4 \<Longrightarrow>
   newCodeLoop s (ds @ rest) =
     Some (s\<lparr>codeSequence := take (nat (buttonBeingCompared s)) (codeSequence s)
                 @ map2 storeDigit ds (drop (nat (buttonBeingCompared s)) (codeSequence s)),
              buttonBeingCompared := 4\<rparr>,
           replicate (length ds) (uartUsb_write ''*'' 1), rest)"
proof (induction ds arbitrary: s)
  case Nil
  then have k: "buttonBeingCompared s = 4" by simp
  then have "newCodeLoop s ([] @ rest) = Some (s, [], rest)"
    by (subst newCodeLoop.simps) (simp add: NUMBER_OF_KEYS_def)
  moreover have "s\<lparr>codeSequence := codeSequence s, buttonBeingCompared := 4\<rparr> = s"
    using k by simp
  ultimately show ?case
    using Nil.prems k by simp
next
  case (Cons c ds)
  let ?k = "buttonBeingCompared s"
  let ?cs = "codeSequence s"
  have lt: "?k < 4" using Cons.prems by simp
  have nlt: "nat ?k < length ?cs" using Cons.prems lt by simp
  define s1 where "s1 = s\<lparr>codeSequence := ?cs[nat ?k := storeDigit c (?cs ! nat ?k)]\<rparr>"
  let ?s2 = "s1\<lparr>buttonBeingCompared := ?k + 1\<rparr>"
  have unfold: "newCodeLoop s ((c # ds) @ rest) =
      (case newCodeLoop ?s2 (ds @ rest) of None \<Rightarrow> None
       | Some (s2, out, r) \<Rightarrow> Some (s2, uartUsb_write ''*'' 1 # out, r))"
    using lt by (subst newCodeLoop.simps)
      (auto simp: NUMBER_OF_KEYS_def s1_def storeDigit_def Let_def)
  have ih: "newCodeLoop ?s2 (ds @ rest) =
      Some (?s2\<lparr>codeSequence := take (nat (buttonBeingCompared ?s2)) (codeSequence ?s2)
                 @ map2 storeDigit ds (drop (nat (buttonBeingCompared ?s2)) (codeSequence ?s2)),
              buttonBeingCompared := 4\<rparr>,
           replicate (length ds) (uartUsb_write ''*'' 1), rest)"
    using Cons.prems lt by (intro Cons.IH) (auto simp: s1_def)
  have suc: "nat (?k + 1) = Suc (nat ?k)" using Cons.prems by simp
  have dr: "drop (nat ?k) ?cs = ?cs ! nat ?k # drop (Suc (nat ?k)) ?cs"
    using Cons_nth_drop_Suc [OF nlt] by simp
  have tk: "take (Suc (nat ?k)) (?cs[nat ?k := v]) = take (nat ?k) ?cs @ [v]" for v
    using nlt by (simp add: take_Suc_conv_app_nth)
  show ?case
    unfolding unfold ih
    by (simp add: s1_def suc dr tk)
qed

lemma enterCodeLoop_frame:
  "enterCodeLoop s rx = Some (s', out, rest) \<Longrightarrow>
   s' = s\<lparr>incorrectCode := incorrectCode s', buttonBeingCompared := buttonBeingCompared s'\<rparr>"
proof (induction rx arbitrary: s s' out rest)
  case Nil
  then show ?case
    by (subst (asm) enterCodeLoop.simps) (simp split: if_splits)
next
  case (Cons c rx)
  show ?case
  proof (cases "buttonBeingCompared s < NUMBER_OF_KEYS")
    case False
    with Cons.prems have "s' = s"
      by (subst (asm) enterCodeLoop.simps) simp
    then show ?thesis by simp
  next
    case True
    define s1 where "s1 = (if c = CHR ''1''
                           then (if codeSequence s ! nat (buttonBeingCompared s) \<noteq> 1
                                 then s\<lparr>incorrectCode := True\<rparr> else s)
                           else if c = CHR ''0''
                           then (if codeSequence s ! nat (buttonBeingCompared s) \<noteq> 0
                                 then s\<lparr>incorrectCode := True\<rparr> else s)
                           else s\<lparr>incorrectCode := True\<rparr>)"
    have s1: "s1 = s\<lparr>incorrectCode := incorrectCode s1\<rparr>"
      by (simp add: s1_def)
    from Cons.prems True obtain out' where
      rec: "enterCodeLoop (s1\<lparr>buttonBeingCompared := buttonBeingCompared s1 + 1\<rparr>) rx = Some (s', out', rest)"
      by (subst (asm) enterCodeLoop.simps)
         (auto simp: s1_def Let_def split: option.splits)
    from Cons.IH [OF rec] have
      "s' = s1\<lparr>buttonBeingCompared := buttonBeingCompared s1 + 1,
               incorrectCode := incorrectCode s', buttonBeingCompared := buttonBeingCompared s'\<rparr>"
      by simp
    then show ?thesis
      by (subst (asm) s1) simp
  qed
qed

lemma newCodeLoop_frame:
  "newCodeLoop s rx = Some (s', out, rest) \<Longrightarrow>
   s' = s\<lparr>codeSequence := codeSequence s', buttonBeingCompared := buttonBeingCompared s'\<rparr>
   \<and> length (codeSequence s') = length (codeSequence s)"
proof (induction rx arbitrary: s s' out rest)
  case Nil
  then show ?case
    by (subst (asm) newCodeLoop.simps) (simp split: if_splits)
next
  case (Cons c rx)
  show ?case
  proof (cases "buttonBeingCompared s < NUMBER_OF_KEYS")
    case False
    with Cons.prems have "s' = s"
      by (subst (asm) newCodeLoop.simps) simp
    then show ?thesis by simp
  next
    case True
    define s1 where "s1 = (if c = CHR ''1''
                           then s\<lparr>codeSequence := (codeSequence s)[nat (buttonBeingCompared s) := 1]\<rparr>
                           else if c = CHR ''0''
                           then s\<lparr>codeSequence := (codeSequence s)[nat (buttonBeingCompared s) := 0]\<rparr>
                           else s)"
    have s1: "s1 = s\<lparr>codeSequence := codeSequence s1\<rparr>"
      and len: "length (codeSequence s1) = length (codeSequence s)"
      by (simp_all add: s1_def)
    from Cons.prems True obtain out' where
      rec: "newCodeLoop (s1\<lparr>buttonBeingCompared := buttonBeingCompared s1 + 1\<rparr>) rx = Some (s', out', rest)"
      by (subst (asm) newCodeLoop.simps)
         (auto simp: s1_def Let_def split: option.splits)
    from Cons.IH [OF rec] have
      "s' = s1\<lparr>buttonBeingCompared := buttonBeingCompared s1 + 1,
               codeSequence := codeSequence s', buttonBeingCompared := buttonBeingCompared s'\<rparr>"
      and "length (codeSequence s') = length (codeSequence s1)"
      by simp_all
    then show ?thesis
      using len by (subst (asm) s1) simp
  qed
qed

lemma enterCodeLoop_blocks:
  "0 \<le> buttonBeingCompared s \<Longrightarrow> length rx < nat (4 - buttonBeingCompared s) \<Longrightarrow>
   enterCodeLoop s rx = None"
proof (induction rx arbitrary: s)
  case Nil
  then show ?case
    by (subst enterCodeLoop.simps) (simp add: NUMBER_OF_KEYS_def)
next
  case (Cons c rx)
  have lt: "buttonBeingCompared s < 4" using Cons.prems by simp
  have "enterCodeLoop t rx = None"
    if "buttonBeingCompared t = buttonBeingCompared s + 1" for t :: "'a state"
    using Cons.prems that by (intro Cons.IH) auto
  then show ?case
    using lt by (subst enterCodeLoop.simps) (simp add: NUMBER_OF_KEYS_def Let_def)
qed

lemma newCodeLoop_blocks:
  "0 \<le> buttonBeingCompared s \<Longrightarrow> length rx < nat (4 - buttonBeingCompared s) \<Longrightarrow>
   newCodeLoop s rx = None"
proof (induction rx arbitrary: s)
  case Nil
  then show ?case
    by (subst newCodeLoop.simps) (simp add: NUMBER_OF_KEYS_def)
next
  case (Cons c rx)
  have lt: "buttonBeingCompared s < 4" using Cons.prems by simp
  have "newCodeLoop t rx = None"
    if "buttonBeingCompared t = buttonBeingCompared s + 1" for t :: "'a state"
    using Cons.prems that by (intro Cons.IH) auto
  then show ?case
    using lt by (subst newCodeLoop.simps) (simp add: NUMBER_OF_KEYS_def Let_def)
qed

lemma uartEnterCode_eq:
  assumes "length ds = 4" and "length (codeSequence s) = 4"
  shows "uartEnterCode s (ds @ rest) =
     Some (if list_all2 digitMatches ds (codeSequence s)
           then s\<lparr>incorrectCode := False, buttonBeingCompared := 4, alarmState := False,
                  incorrectCodeLed := False, numberOfIncorrectCodes := 0\<rparr>
           else s\<lparr>incorrectCode := True, buttonBeingCompared := 4, incorrectCodeLed := True,
                  numberOfIncorrectCodes := numberOfIncorrectCodes s + 1\<rparr>,
           enterCodePrompt @ replicate 4 (uartUsb_write ''*'' 1)
             @ [if list_all2 digitMatches ds (codeSequence s)
                then uartUsb_write (CRLF @ ''The code is correct'' @ CRLF @ CRLF) 25
                else uartUsb_write (CRLF @ ''The code is incorrect'' @ CRLF @ CRLF) 27],
           rest)"
proof -
  let ?s0 = "s\<lparr>incorrectCode := False, buttonBeingCompared := 0\<rparr>"
  have "enterCodeLoop ?s0 (ds @ rest) =
     Some (?s0\<lparr>incorrectCode := (incorrectCode ?s0 \<or>
                 \<not> list_all2 digitMatches ds (drop (nat (buttonBeingCompared ?s0)) (codeSequence ?s0))),
              buttonBeingCompared := 4\<rparr>,
           replicate (length ds) (uartUsb_write ''*'' 1), rest)"
    using assms by (intro enterCodeLoop_eq) simp_all
  then show ?thesis
    using assms by (simp add: uartEnterCode_def OFF_def ON_def)
qed

lemma uartNewCode_eq:
  assumes "length ds = 4" and "length (codeSequence s) = 4"
  shows "uartNewCode s (ds @ rest) =
     Some (s\<lparr>codeSequence := map2 storeDigit ds (codeSequence s), buttonBeingCompared := 4\<rparr>,
           newCodePrompt @ replicate 4 (uartUsb_write ''*'' 1)
             @ [uartUsb_write (CRLF @ ''New code generated'' @ CRLF @ CRLF) 24],
           rest)"
proof -
  let ?s0 = "s\<lparr>buttonBeingCompared := 0\<rparr>"
  have "newCodeLoop ?s0 (ds @ rest) =
     Some (?s0\<lparr>codeSequence := take (nat (buttonBeingCompared ?s0)) (codeSequence ?s0)
                 @ map2 storeDigit ds (drop (nat (buttonBeingCompared ?s0)) (codeSequence ?s0)),
              buttonBeingCompared := 4\<rparr>,
           replicate (length ds) (uartUsb_write ''*'' 1), rest)"
    using assms by (intro newCodeLoop_eq) simp_all
  then show ?thesis
    using assms by (simp add: uartNewCode_def)
qed

lemma uartTask_enterCode:
  assumes "uartRx inp = CHR ''4'' # ds @ rest" and "length ds = 4" and "length (codeSequence s) = 4"
  shows "uartTask A s inp =
     Some (if list_all2 digitMatches ds (codeSequence s)
           then s\<lparr>incorrectCode := False, buttonBeingCompared := 4, alarmState := False,
                  incorrectCodeLed := False, numberOfIncorrectCodes := 0\<rparr>
           else s\<lparr>incorrectCode := True, buttonBeingCompared := 4, incorrectCodeLed := True,
                  numberOfIncorrectCodes := numberOfIncorrectCodes s + 1\<rparr>,
           Printf ''UART Task initiated.'' # enterCodePrompt @ replicate 4 (uartUsb_write ''*'' 1)
             @ [if list_all2 digitMatches ds (codeSequence s)
                then uartUsb_write (CRLF @ ''The code is correct'' @ CRLF @ CRLF) 25
                else uartUsb_write (CRLF @ ''The code is incorrect'' @ CRLF @ CRLF) 27],
           rest)"
  using assms(1) uartEnterCode_eq [OF assms(2,3), of rest]
  by (simp add: uartTask_def uartCommand_def)

lemma uartTask_newCode:
  assumes "uartRx inp = CHR ''5'' # ds @ rest" and "length ds = 4" and "length (codeSequence s) = 4"
  shows "uartTask A s inp =
     Some (s\<lparr>codeSequence := map2 storeDigit ds (codeSequence s), buttonBeingCompared := 4\<rparr>,
           Printf ''UART Task initiated.'' # newCodePrompt @ replicate 4 (uartUsb_write ''*'' 1)
             @ [uartUsb_write (CRLF @ ''New code generated'' @ CRLF @ CRLF) 24],
           rest)"
  using assms(1) uartNewCode_eq [OF assms(2,3), of rest]
  by (simp add: uartTask_def uartCommand_def)

lemma uartEnterCode_cases:
  assumes "uartEnterCode s rx = Some (s', out, rest)"
  obtains (match) k where
      "s' = s\<lparr>incorrectCode := False, buttonBeingCompared := k, alarmState := False,
               incorrectCodeLed := False, numberOfIncorrectCodes := 0\<rparr>"
    | (mismatch) k where
      "s' = s\<lparr>incorrectCode := True, buttonBeingCompared := k, incorrectCodeLed := True,
               numberOfIncorrectCodes := numberOfIncorrectCodes s + 1\<rparr>"
proof -
  let ?s0 = "s\<lparr>incorrectCode := False, buttonBeingCompared := 0\<rparr>"
  from assms obtain s1 echo where
    loop: "enterCodeLoop ?s0 rx = Some (s1, echo, rest)" and
    s': "s' = (if incorrectCode s1 = False
               then s1\<lparr>alarmState := OFF, incorrectCodeLed := OFF, numberOfIncorrectCodes := 0\<rparr>
               else s1\<lparr>incorrectCodeLed := ON,
                       numberOfIncorrectCodes := numberOfIncorrectCodes s1 + 1\<rparr>)"
    by (auto simp: uartEnterCode_def split: option.splits if_splits)
  define b k where "b = incorrectCode s1" and "k = buttonBeingCompared s1"
  have s1: "s1 = s\<lparr>incorrectCode := b, buttonBeingCompared := k\<rparr>"
    using enterCodeLoop_frame [OF loop] by (simp add: b_def k_def)
  show thesis
  proof (cases b)
    case True
    then have "s' = s\<lparr>incorrectCode := True, buttonBeingCompared := k, incorrectCodeLed := True,
               numberOfIncorrectCodes := numberOfIncorrectCodes s + 1\<rparr>"
      by (simp add: s' s1 ON_def)
    then show ?thesis by (rule mismatch)
  next
    case False
    then have "s' = s\<lparr>incorrectCode := False, buttonBeingCompared := k, alarmState := False,
               incorrectCodeLed := False, numberOfIncorrectCodes := 0\<rparr>"
      by (simp add: s' s1 OFF_def)
    then show ?thesis by (rule match)
  qed
qed

lemma uartNewCode_cases:
  assumes "uartNewCode s rx = Some (s', out, rest)"
  obtains cs k where "s' = s\<lparr>codeSequence := cs, buttonBeingCompared := k\<rparr>"
    and "length cs = length (codeSequence s)"
proof -
  let ?s0 = "s\<lparr>buttonBeingCompared := 0\<rparr>"
  from assms obtain echo where loop: "newCodeLoop ?s0 rx = Some (s', echo, rest)"
    by (auto simp: uartNewCode_def split: option.splits)
  from newCodeLoop_frame [OF loop]
  have "s' = s\<lparr>codeSequence := codeSequence s', buttonBeingCompared := buttonBeingCompared s'\<rparr>"
    and "length (codeSequence s') = length (codeSequence s)"
    by simp_all
  then show thesis by (rule that)
qed

lemma uartTask_cases:
  assumes "uartTask A s inp = Some (s', out, rest)"
  obtains (match) k where
      "s' = s\<lparr>incorrectCode := False, buttonBeingCompared := k, alarmState := False,
               incorrectCodeLed := False, numberOfIncorrectCodes := 0\<rparr>"
    | (mismatch) k where
      "s' = s\<lparr>incorrectCode := True, buttonBeingCompared := k, incorrectCodeLed := True,
               numberOfIncorrectCodes := numberOfIncorrectCodes s + 1\<rparr>"
    | (newCode) cs k where "s' = s\<lparr>codeSequence := cs, buttonBeingCompared := k\<rparr>"
        and "length cs = length (codeSequence s)"
    | (reading) "s' = s\<lparr>potentiometerReading := potentiometer inp\<rparr>"
    | (same) "s' = s"
proof (cases "uartRx inp")
  case Nil
  with assms have "s' = s"
    by (simp add: uartTask_def)
  then show ?thesis by (rule same)
next
  case (Cons c rx)
  with assms obtain out' where cmd: "uartCommand A s inp c rx = Some (s', out', rest)"
    by (auto simp: uartTask_def split: option.splits)
  consider (enter) "c = CHR ''4''" | (new) "c = CHR ''5''"
    | (pot) "c = CHR ''p''" | (pot') "c = CHR ''P''"
    | (other) "c \<noteq> CHR ''4''" "c \<noteq> CHR ''5''" "c \<noteq> CHR ''p''" "c \<noteq> CHR ''P''"
    by blast
  then show ?thesis
  proof cases
    case enter
    with cmd have "uartEnterCode s rx = Some (s', out', rest)"
      by (simp add: uartCommand_def)
    then show ?thesis by (rule uartEnterCode_cases) (erule match mismatch)+
  next
    case new
    with cmd have "uartNewCode s rx = Some (s', out', rest)"
      by (simp add: uartCommand_def)
    then show ?thesis by (rule uartNewCode_cases) (erule newCode)
  next
    case pot
    with cmd have "s' = s\<lparr>potentiometerReading := potentiometer inp\<rparr>"
      by (simp add: uartCommand_def Let_def)
    then show ?thesis by (rule reading)
  next
    case pot'
    with cmd have "s' = s\<lparr>potentiometerReading := potentiometer inp\<rparr>"
      by (simp add: uartCommand_def Let_def)
    then show ?thesis by (rule reading)
  next
    case other
    with cmd have "s' = s"
      by (simp add: uartCommand_def split: if_splits)
    then show ?thesis by (rule same)
  qed
qed

subsection \<open>The three functions of a pass\<close>

lemma lm35Sample_eq:
  "lm35Sample s inp =
     s\<lparr>lm35ReadingsArray := (lm35ReadingsArray s)[nat (lm35SampleIndex s) := lm35 inp],
       lm35SampleIndex := (if lm35SampleIndex s + 1 \<ge> 100 then 0 else lm35SampleIndex s + 1)\<rparr>"
  by (simp add: lm35Sample_def Let_def NUMBER_OF_AVG_SAMPLES_def)

lemma lm35Average_eq:
  obtains S where
    "lm35Average A s =
       s\<lparr>lm35ReadingsSum := S,
         lm35ReadingsAverage := f_div A S (f_of_int A 100),
         lm35TempC := analogReadingScaledWithTheLM35Formula A (f_div A S (f_of_int A 100)),
         overTempDetector :=
           f_gt A (analogReadingScaledWithTheLM35Formula A (f_div A S (f_of_int A 100)))
                  (f_of_int A 50)\<rparr>"
    and "length (lm35ReadingsArray s) = 100 \<longrightarrow>
         S = foldl (f_add A) (f_of_double A (d_lit A 0)) (lm35ReadingsArray s)"
proof -
  let ?s0 = "s\<lparr>lm35ReadingsSum := f_of_double A (d_lit A 0)\<rparr>"
  define S where "S = lm35ReadingsSum (lm35SumLoop A 0 ?s0)"
  have loop: "lm35SumLoop A 0 ?s0 = s\<lparr>lm35ReadingsSum := S\<rparr>"
    by (subst lm35SumLoop_frame) (simp add: S_def)
  have "lm35Average A s =
       s\<lparr>lm35ReadingsSum := S,
         lm35ReadingsAverage := f_div A S (f_of_int A 100),
         lm35TempC := analogReadingScaledWithTheLM35Formula A (f_div A S (f_of_int A 100)),
         overTempDetector :=
           f_gt A (analogReadingScaledWithTheLM35Formula A (f_div A S (f_of_int A 100)))
                  (f_of_int A 50)\<rparr>"
    by (simp add: lm35Average_def loop Let_def consts_defs)
  moreover have "length (lm35ReadingsArray s) = 100 \<longrightarrow>
      S = foldl (f_add A) (f_of_double A (d_lit A 0)) (lm35ReadingsArray s)"
    using lm35SumLoop_foldl [of 0 ?s0 A] by (simp add: S_def)
  ultimately show thesis by (rule that)
qed

lemma alarmCauses_eq:
  "alarmCauses s inp =
     s\<lparr>gasDetectorState := (gasDetectorState s \<or> \<not> mq2 inp \<or> alarmTestButton inp),
       overTempDetectorState :=
         (overTempDetectorState s \<or> overTempDetector s \<or> alarmTestButton inp),
       alarmState :=
         (alarmState s \<or> \<not> mq2 inp \<or> overTempDetector s \<or> alarmTestButton inp)\<rparr>"
  by (simp add: alarmCauses_def Let_def ON_def)

lemma alarmOutputs_off:
  "\<not> alarmState s \<Longrightarrow>
   alarmOutputs s = s\<lparr>alarmLed := False, gasDetectorState := False,
                         overTempDetectorState := False, sirenPinIsOutput := False\<rparr>"
  by (simp add: alarmOutputs_def OFF_def)

lemma alarmOutputs_on:
  "alarmState s \<Longrightarrow>
   alarmOutputs s =
     (let t = accumulatedTimeAlarm s + 10;
          blinkingTime = (if gasDetectorState s \<and> overTempDetectorState s then Some (100 :: 32 word)
                          else if gasDetectorState s then Some 1000
                          else if overTempDetectorState s then Some 500 else None);
          toggles = (case blinkingTime of None \<Rightarrow> False | Some b \<Rightarrow> b \<le>s t)
      in s\<lparr>sirenPinIsOutput := True, sirenPinLevel := False,
           accumulatedTimeAlarm := (if toggles then 0 else t),
           alarmLed := (if toggles then \<not> alarmLed s else alarmLed s)\<rparr>)"
  by (simp add: alarmOutputs_def blinkAt_def Let_def consts_defs)

lemma readButtons_eq:
  "length (buttonsPressed s) = 4 \<Longrightarrow>
   readButtons s inp =
     s\<lparr>buttonsPressed := [of_bool (aButton inp), of_bool (bButton inp),
                            of_bool (cButton inp), of_bool (dButton inp)]\<rparr>"
proof -
  assume "length (buttonsPressed s) = 4"
  then obtain w x y z where "buttonsPressed s = [w, x, y, z]"
    by (auto simp: length_Suc_conv numeral_eq_Suc)
  then show ?thesis
    by (simp add: readButtons_def Let_def)
qed

lemma areEqual_readButtons:
  assumes "length (codeSequence s) = 4" and "length (buttonsPressed s) = 4"
  shows "areEqual (readButtons s inp) =
           (codeSequence s = [of_bool (aButton inp), of_bool (bButton inp),
                              of_bool (cButton inp), of_bool (dButton inp)])"
  using assms areEqualLoop_iff [of 0 "readButtons s inp"]
  by (simp add: areEqual_def readButtons_eq)

lemma readButtons_frame:
  "readButtons s inp = s\<lparr>buttonsPressed := buttonsPressed (readButtons s inp)\<rparr>"
  "length (buttonsPressed (readButtons s inp)) = length (buttonsPressed s)"
  by (simp_all add: readButtons_def Let_def)

lemma alarmDeactivationUpdate_blocked:
  "\<not> numberOfIncorrectCodes s <s 5 \<Longrightarrow>
   alarmDeactivationUpdate s inp = s\<lparr>systemBlockedLed := True\<rparr>"
  by (simp add: alarmDeactivationUpdate_def ON_def)

lemma alarmDeactivationUpdate_clear:
  "numberOfIncorrectCodes s <s 5 \<Longrightarrow>
   aButton inp \<and> bButton inp \<and> cButton inp \<and> dButton inp \<and> \<not> enterButton inp \<Longrightarrow>
   alarmDeactivationUpdate s inp = s\<lparr>incorrectCodeLed := False\<rparr>"
  by (simp add: alarmDeactivationUpdate_def OFF_def)

lemma alarmDeactivationUpdate_idle:
  "numberOfIncorrectCodes s <s 5 \<Longrightarrow>
   \<not> (aButton inp \<and> bButton inp \<and> cButton inp \<and> dButton inp \<and> \<not> enterButton inp) \<Longrightarrow>
   \<not> (enterButton inp \<and> \<not> incorrectCodeLed s \<and> alarmState s) \<Longrightarrow>
   alarmDeactivationUpdate s inp = s"
  unfolding alarmDeactivationUpdate_def by (simp only: if_True if_False Let_def)

lemma alarmDeactivationUpdate_evaluate:
  assumes "numberOfIncorrectCodes s <s 5" and "enterButton inp" and "\<not> incorrectCodeLed s"
    and "alarmState s"
  shows "alarmDeactivationUpdate s inp =
     (if areEqual (readButtons s inp)
      then s\<lparr>buttonsPressed := buttonsPressed (readButtons s inp), alarmState := False,
             numberOfIncorrectCodes := 0\<rparr>
      else s\<lparr>buttonsPressed := buttonsPressed (readButtons s inp), incorrectCodeLed := True,
             numberOfIncorrectCodes := numberOfIncorrectCodes s + 1\<rparr>)"
proof -
  have g: "\<not> (aButton inp \<and> bButton inp \<and> cButton inp \<and> dButton inp \<and> \<not> enterButton inp)"
    using assms(2) by simp
  have "alarmDeactivationUpdate s inp =
     (if areEqual (readButtons s inp)
      then (readButtons s inp)\<lparr>alarmState := OFF, numberOfIncorrectCodes := 0\<rparr>
      else (readButtons s inp)\<lparr>incorrectCodeLed := ON,
             numberOfIncorrectCodes := numberOfIncorrectCodes (readButtons s inp) + 1\<rparr>)"
    unfolding alarmDeactivationUpdate_def using assms g
    by (simp only: if_True if_False Let_def simp_thms)
  then show ?thesis
    by (subst (asm) (2 3 4) readButtons_frame(1)) (simp add: ON_def OFF_def)
qed

lemma alarmDeactivationUpdate_cases:
  obtains (blocked) "\<not> numberOfIncorrectCodes s <s 5"
      "alarmDeactivationUpdate s inp = s\<lparr>systemBlockedLed := True\<rparr>"
    | (cleared) "alarmDeactivationUpdate s inp = s\<lparr>incorrectCodeLed := False\<rparr>"
    | (match) buttons where
      "alarmDeactivationUpdate s inp =
         s\<lparr>buttonsPressed := buttons, alarmState := False, numberOfIncorrectCodes := 0\<rparr>"
      "length buttons = length (buttonsPressed s)"
    | (mismatch) buttons where
      "alarmDeactivationUpdate s inp =
         s\<lparr>buttonsPressed := buttons, incorrectCodeLed := True,
           numberOfIncorrectCodes := numberOfIncorrectCodes s + 1\<rparr>"
      "length buttons = length (buttonsPressed s)"
    | (same) "alarmDeactivationUpdate s inp = s"
proof (cases "numberOfIncorrectCodes s <s 5")
  case False
  then show ?thesis
    by (intro blocked alarmDeactivationUpdate_blocked)
next
  case lt: True
  show ?thesis
  proof (cases "aButton inp \<and> bButton inp \<and> cButton inp \<and> dButton inp \<and> \<not> enterButton inp")
    case True
    with lt show ?thesis
      by (intro cleared alarmDeactivationUpdate_clear)
  next
    case nc: False
    show ?thesis
    proof (cases "enterButton inp \<and> \<not> incorrectCodeLed s \<and> alarmState s")
      case False
      with lt nc show ?thesis
        by (intro same alarmDeactivationUpdate_idle)
    next
      case ev: True
      then have eq: "alarmDeactivationUpdate s inp =
         (if areEqual (readButtons s inp)
          then s\<lparr>buttonsPressed := buttonsPressed (readButtons s inp), alarmState := False,
                 numberOfIncorrectCodes := 0\<rparr>
          else s\<lparr>buttonsPressed := buttonsPressed (readButtons s inp), incorrectCodeLed := True,
                 numberOfIncorrectCodes := numberOfIncorrectCodes s + 1\<rparr>)"
        using lt by (intro alarmDeactivationUpdate_evaluate) simp_all
      show ?thesis
      proof (cases "areEqual (readButtons s inp)")
        case True
        with eq show ?thesis
          by (intro match [of "buttonsPressed (readButtons s inp)"] readButtons_frame(2)) simp
      next
        case False
        with eq show ?thesis
          by (intro mismatch [of "buttonsPressed (readButtons s inp)"] readButtons_frame(2)) simp
      qed
    qed
  qed
qed

lemma alarmActivationUpdate_mid:
  obtains mid S where
    "alarmActivationUpdate A s inp = alarmOutputs mid"
    and "mid = s\<lparr>lm35ReadingsArray := (lm35ReadingsArray s)[nat (lm35SampleIndex s) := lm35 inp],
              lm35SampleIndex := (if lm35SampleIndex s + 1 \<ge> 100 then 0 else lm35SampleIndex s + 1),
              lm35ReadingsSum := S,
              lm35ReadingsAverage := f_div A S (f_of_int A 100),
              lm35TempC := analogReadingScaledWithTheLM35Formula A (f_div A S (f_of_int A 100)),
              overTempDetector :=
                f_gt A (analogReadingScaledWithTheLM35Formula A (f_div A S (f_of_int A 100)))
                       (f_of_int A 50),
              gasDetectorState := (gasDetectorState s \<or> \<not> mq2 inp \<or> alarmTestButton inp),
              overTempDetectorState :=
                (overTempDetectorState s
                 \<or> f_gt A (analogReadingScaledWithTheLM35Formula A (f_div A S (f_of_int A 100)))
                          (f_of_int A 50)
                 \<or> alarmTestButton inp),
              alarmState :=
                (alarmState s \<or> \<not> mq2 inp
                 \<or> f_gt A (analogReadingScaledWithTheLM35Formula A (f_div A S (f_of_int A 100)))
                          (f_of_int A 50)
                 \<or> alarmTestButton inp)\<rparr>"
    and "length (lm35ReadingsArray s) = 100 \<longrightarrow>
         S = foldl (f_add A) (f_of_double A (d_lit A 0))
               ((lm35ReadingsArray s)[nat (lm35SampleIndex s) := lm35 inp])"
proof -
  obtain S where
    avg: "lm35Average A (lm35Sample s inp) =
       (lm35Sample s inp)\<lparr>lm35ReadingsSum := S,
         lm35ReadingsAverage := f_div A S (f_of_int A 100),
         lm35TempC := analogReadingScaledWithTheLM35Formula A (f_div A S (f_of_int A 100)),
         overTempDetector :=
           f_gt A (analogReadingScaledWithTheLM35Formula A (f_div A S (f_of_int A 100)))
                  (f_of_int A 50)\<rparr>"
    and S: "length (lm35ReadingsArray (lm35Sample s inp)) = 100 \<longrightarrow>
         S = foldl (f_add A) (f_of_double A (d_lit A 0)) (lm35ReadingsArray (lm35Sample s inp))"
    by (rule lm35Average_eq [where A = A and s = "lm35Sample s inp"])
  show thesis
  proof (rule that [of "alarmCauses (lm35Average A (lm35Sample s inp)) inp" S])
    show "alarmActivationUpdate A s inp =
            alarmOutputs (alarmCauses (lm35Average A (lm35Sample s inp)) inp)"
      by (simp add: alarmActivationUpdate_def)
    show "alarmCauses (lm35Average A (lm35Sample s inp)) inp =
            s\<lparr>lm35ReadingsArray := (lm35ReadingsArray s)[nat (lm35SampleIndex s) := lm35 inp],
              lm35SampleIndex := (if lm35SampleIndex s + 1 \<ge> 100 then 0 else lm35SampleIndex s + 1),
              lm35ReadingsSum := S,
              lm35ReadingsAverage := f_div A S (f_of_int A 100),
              lm35TempC := analogReadingScaledWithTheLM35Formula A (f_div A S (f_of_int A 100)),
              overTempDetector :=
                f_gt A (analogReadingScaledWithTheLM35Formula A (f_div A S (f_of_int A 100)))
                       (f_of_int A 50),
              gasDetectorState := (gasDetectorState s \<or> \<not> mq2 inp \<or> alarmTestButton inp),
              overTempDetectorState :=
                (overTempDetectorState s
                 \<or> f_gt A (analogReadingScaledWithTheLM35Formula A (f_div A S (f_of_int A 100)))
                          (f_of_int A 50)
                 \<or> alarmTestButton inp),
              alarmState :=
                (alarmState s \<or> \<not> mq2 inp
                 \<or> f_gt A (analogReadingScaledWithTheLM35Formula A (f_div A S (f_of_int A 100)))
                          (f_of_int A 50)
                 \<or> alarmTestButton inp)\<rparr>"
      by (simp only: alarmCauses_eq avg) (simp add: lm35Sample_eq)
    show "length (lm35ReadingsArray s) = 100 \<longrightarrow>
          S = foldl (f_add A) (f_of_double A (d_lit A 0))
               ((lm35ReadingsArray s)[nat (lm35SampleIndex s) := lm35 inp])"
      using S by (simp add: lm35Sample_eq)
  qed
qed

text \<open>What \<open>alarmActivationUpdate\<close> leaves alone, and what it does to the alarm.\<close>

lemma alarmActivationUpdate_frame:
  "numberOfIncorrectCodes (alarmActivationUpdate A s inp) = numberOfIncorrectCodes s"
  "incorrectCodeLed (alarmActivationUpdate A s inp) = incorrectCodeLed s"
  "systemBlockedLed (alarmActivationUpdate A s inp) = systemBlockedLed s"
  "codeSequence (alarmActivationUpdate A s inp) = codeSequence s"
  "buttonsPressed (alarmActivationUpdate A s inp) = buttonsPressed s"
  "alarmState s \<Longrightarrow> alarmState (alarmActivationUpdate A s inp)"
  "length (lm35ReadingsArray (alarmActivationUpdate A s inp)) = length (lm35ReadingsArray s)"
  "lm35SampleIndex (alarmActivationUpdate A s inp) =
     (if lm35SampleIndex s + 1 \<ge> 100 then 0 else lm35SampleIndex s + 1)"
proof -
  obtain mid S where act: "alarmActivationUpdate A s inp = alarmOutputs mid"
    and mid: "mid = s\<lparr>lm35ReadingsArray := (lm35ReadingsArray s)[nat (lm35SampleIndex s) := lm35 inp],
              lm35SampleIndex := (if lm35SampleIndex s + 1 \<ge> 100 then 0 else lm35SampleIndex s + 1),
              lm35ReadingsSum := S,
              lm35ReadingsAverage := f_div A S (f_of_int A 100),
              lm35TempC := analogReadingScaledWithTheLM35Formula A (f_div A S (f_of_int A 100)),
              overTempDetector :=
                f_gt A (analogReadingScaledWithTheLM35Formula A (f_div A S (f_of_int A 100)))
                       (f_of_int A 50),
              gasDetectorState := (gasDetectorState s \<or> \<not> mq2 inp \<or> alarmTestButton inp),
              overTempDetectorState :=
                (overTempDetectorState s
                 \<or> f_gt A (analogReadingScaledWithTheLM35Formula A (f_div A S (f_of_int A 100)))
                          (f_of_int A 50)
                 \<or> alarmTestButton inp),
              alarmState :=
                (alarmState s \<or> \<not> mq2 inp
                 \<or> f_gt A (analogReadingScaledWithTheLM35Formula A (f_div A S (f_of_int A 100)))
                          (f_of_int A 50)
                 \<or> alarmTestButton inp)\<rparr>"
    by (rule alarmActivationUpdate_mid)
  have m: "numberOfIncorrectCodes mid = numberOfIncorrectCodes s"
    "incorrectCodeLed mid = incorrectCodeLed s" "systemBlockedLed mid = systemBlockedLed s"
    "codeSequence mid = codeSequence s" "buttonsPressed mid = buttonsPressed s"
    "alarmState s \<Longrightarrow> alarmState mid"
    "length (lm35ReadingsArray mid) = length (lm35ReadingsArray s)"
    "lm35SampleIndex mid = (if lm35SampleIndex s + 1 \<ge> 100 then 0 else lm35SampleIndex s + 1)"
    by (simp_all add: mid)
  have out: "numberOfIncorrectCodes (alarmOutputs t) = numberOfIncorrectCodes t"
    "incorrectCodeLed (alarmOutputs t) = incorrectCodeLed t"
    "systemBlockedLed (alarmOutputs t) = systemBlockedLed t"
    "codeSequence (alarmOutputs t) = codeSequence t"
    "buttonsPressed (alarmOutputs t) = buttonsPressed t"
    "alarmState (alarmOutputs t) = alarmState t"
    "lm35ReadingsArray (alarmOutputs t) = lm35ReadingsArray t"
    "lm35SampleIndex (alarmOutputs t) = lm35SampleIndex t" for t :: "'a state"
    by (cases "alarmState t"; simp add: alarmOutputs_on alarmOutputs_off Let_def)+
  show "numberOfIncorrectCodes (alarmActivationUpdate A s inp) = numberOfIncorrectCodes s"
    "incorrectCodeLed (alarmActivationUpdate A s inp) = incorrectCodeLed s"
    "systemBlockedLed (alarmActivationUpdate A s inp) = systemBlockedLed s"
    "codeSequence (alarmActivationUpdate A s inp) = codeSequence s"
    "buttonsPressed (alarmActivationUpdate A s inp) = buttonsPressed s"
    "alarmState s \<Longrightarrow> alarmState (alarmActivationUpdate A s inp)"
    "length (lm35ReadingsArray (alarmActivationUpdate A s inp)) = length (lm35ReadingsArray s)"
    "lm35SampleIndex (alarmActivationUpdate A s inp) =
       (if lm35SampleIndex s + 1 \<ge> 100 then 0 else lm35SampleIndex s + 1)"
    unfolding act out by (fact m)+
qed

lemma stateOk_alarmActivationUpdate:
  "stateOk s \<Longrightarrow> stateOk (alarmActivationUpdate A s inp)"
  by (simp add: stateOk_def alarmActivationUpdate_frame)

lemma stateOk_alarmDeactivationUpdate:
  "stateOk s \<Longrightarrow> stateOk (alarmDeactivationUpdate s inp)"
  by (rule alarmDeactivationUpdate_cases [of s inp]) (simp_all add: stateOk_def)

lemma stateOk_uartTask:
  "stateOk s \<Longrightarrow> uartTask A s inp = Some (s', out, rest) \<Longrightarrow> stateOk s'"
  by (erule uartTask_cases) (simp_all add: stateOk_def)

lemma stateOk_mainLoopPass:
  "stateOk s \<Longrightarrow> mainLoopPass A s inp = Some (s', out, rest) \<Longrightarrow> stateOk s'"
  unfolding mainLoopPass_def
  by (rule stateOk_uartTask [OF stateOk_alarmDeactivationUpdate [OF stateOk_alarmActivationUpdate]])

lemma stateOk_mainLoop:
  "stateOk s \<Longrightarrow> mainLoop A s inps = Some s' \<Longrightarrow> stateOk s'"
proof (induction inps arbitrary: s)
  case Nil
  then show ?case by simp
next
  case (Cons inp inps)
  from Cons.prems(2) obtain s1 out rest where
    pass: "mainLoopPass A s inp = Some (s1, out, rest)" and run: "mainLoop A s1 inps = Some s'"
    by (auto split: option.splits)
  from Cons.prems(1) pass have "stateOk s1" by (rule stateOk_mainLoopPass)
  then show ?case using run by (rule Cons.IH)
qed

lemma stateOk_start: "stateOk (outputsInit (inputsInit (globalsInit A)))"
  by (simp add: stateOk_def outputsInit_def inputsInit_def globalsInit_def NUMBER_OF_AVG_SAMPLES_def)

lemma alarmDeactivationUpdate_alarmState:
  assumes "length (codeSequence s) = 4" and "length (buttonsPressed s) = 4"
  shows "alarmState (alarmDeactivationUpdate s inp) = (alarmState s \<and> \<not> keypadCodeMatch s inp)"
proof (cases "numberOfIncorrectCodes s <s 5")
  case False
  then show ?thesis
    by (simp add: alarmDeactivationUpdate_blocked keypadCodeMatch_def)
next
  case lt: True
  show ?thesis
  proof (cases "aButton inp \<and> bButton inp \<and> cButton inp \<and> dButton inp \<and> \<not> enterButton inp")
    case True
    with lt show ?thesis
      by (simp add: alarmDeactivationUpdate_clear keypadCodeMatch_def)
  next
    case nc: False
    show ?thesis
    proof (cases "enterButton inp \<and> \<not> incorrectCodeLed s \<and> alarmState s")
      case False
      with lt nc have "alarmDeactivationUpdate s inp = s"
        by (intro alarmDeactivationUpdate_idle)
      with False show ?thesis
        by (auto simp: keypadCodeMatch_def)
    next
      case True
      with lt show ?thesis
        using areEqual_readButtons [OF assms, of inp]
        by (simp add: alarmDeactivationUpdate_evaluate keypadCodeMatch_def)
    qed
  qed
qed

lemma alarmDeactivationUpdate_frame:
  "codeSequence (alarmDeactivationUpdate s inp) = codeSequence s"
  "length (buttonsPressed (alarmDeactivationUpdate s inp)) = length (buttonsPressed s)"
  "accumulatedTimeAlarm (alarmDeactivationUpdate s inp) = accumulatedTimeAlarm s"
  "alarmLed (alarmDeactivationUpdate s inp) = alarmLed s"
  "systemBlockedLed s \<Longrightarrow> systemBlockedLed (alarmDeactivationUpdate s inp)"
  by (rule alarmDeactivationUpdate_cases [of s inp]; simp)+

lemma uartTask_other_command:
  assumes "uartRx inp = c # rx" and "c \<noteq> CHR ''4''"
    and "uartTask A s inp = Some (s', out, rest)"
  shows "alarmState s' = alarmState s"
    and "numberOfIncorrectCodes s' = numberOfIncorrectCodes s"
    and "incorrectCodeLed s' = incorrectCodeLed s"
proof -
  from assms(1,3) obtain out' where cmd: "uartCommand A s inp c rx = Some (s', out', rest)"
    by (auto simp: uartTask_def split: option.splits)
  consider (new) "c = CHR ''5''" | (pot) "c = CHR ''p''" | (pot') "c = CHR ''P''"
    | (other) "c \<noteq> CHR ''5''" "c \<noteq> CHR ''p''" "c \<noteq> CHR ''P''"
    by blast
  then have "alarmState s' = alarmState s \<and> numberOfIncorrectCodes s' = numberOfIncorrectCodes s
    \<and> incorrectCodeLed s' = incorrectCodeLed s"
  proof cases
    case new
    with cmd have "uartNewCode s rx = Some (s', out', rest)"
      by (simp add: uartCommand_def)
    then show ?thesis by (rule uartNewCode_cases) simp
  next
    case pot
    with cmd show ?thesis by (auto simp add: uartCommand_def Let_def)
  next
    case pot'
    with cmd show ?thesis by (auto simp add: uartCommand_def Let_def)
  next
    case other
    with cmd assms(2) have "s' = s"
      by (simp add: uartCommand_def split: if_splits)
    then show ?thesis by simp
  qed
  then show "alarmState s' = alarmState s"
    and "numberOfIncorrectCodes s' = numberOfIncorrectCodes s"
    and "incorrectCodeLed s' = incorrectCodeLed s"
    by simp_all
qed

lemma uartTask_enterCode_length:
  assumes "uartRx inp = CHR ''4'' # rx" and "uartTask A s inp = Some (s', out, rest)"
  shows "4 \<le> length rx"
proof (rule ccontr)
  assume "\<not> 4 \<le> length rx"
  then have "enterCodeLoop (s\<lparr>incorrectCode := False, buttonBeingCompared := 0\<rparr>) rx = None"
    by (intro enterCodeLoop_blocks) simp_all
  then have "uartTask A s inp = None"
    using assms(1) by (simp add: uartTask_def uartCommand_def uartEnterCode_def)
  with assms(2) show False by simp
qed

lemma uartTask_alarmState:
  assumes "length (codeSequence s) = 4" and "uartTask A s inp = Some (s', out, rest)"
  shows "alarmState s' = (alarmState s \<and> \<not> serialCodeMatch s inp)"
proof (cases "uartRx inp")
  case Nil
  with assms(2) show ?thesis
    by (simp add: uartTask_def serialCodeMatch_def)
next
  case (Cons c rx)
  show ?thesis
  proof (cases "c = CHR ''4''")
    case False
    with Cons assms(2) show ?thesis
      by (simp add: uartTask_other_command(1) serialCodeMatch_def)
  next
    case True
    with Cons assms(2) have len: "4 \<le> length rx"
      by (intro uartTask_enterCode_length) simp_all
    then have rx: "uartRx inp = CHR ''4'' # take 4 rx @ drop 4 rx" and l4: "length (take 4 rx) = 4"
      using Cons True by simp_all
    from uartTask_enterCode [OF rx l4 assms(1), of A] assms(2) show ?thesis
      using Cons True by (auto simp: serialCodeMatch_def split: if_splits)
  qed
qed

lemma uartTask_frame:
  assumes "uartTask A s inp = Some (s', out, rest)"
  shows "systemBlockedLed s' = systemBlockedLed s"
    and "accumulatedTimeAlarm s' = accumulatedTimeAlarm s"
    and "alarmLed s' = alarmLed s"
    and "buttonsPressed s' = buttonsPressed s"
    and "length (codeSequence s') = length (codeSequence s)"
  by (rule uartTask_cases [OF assms]; simp)+

text \<open>A pass from an active alarm ends with the alarm off exactly when a code matched.\<close>

lemma mainLoopPass_alarmState:
  assumes "stateOk s" and "alarmState s" and "mainLoopPass A s inp = Some (s', out, rest)"
  shows "alarmState s' = (\<not> keypadCodeMatch s inp \<and> \<not> serialCodeMatch s inp)"
proof -
  let ?a = "alarmActivationUpdate A s inp"
  let ?d = "alarmDeactivationUpdate ?a inp"
  have len: "length (codeSequence ?a) = 4" "length (buttonsPressed ?a) = 4"
    using assms(1) by (simp_all add: stateOk_def alarmActivationUpdate_frame)
  have ka: "keypadCodeMatch ?a inp = keypadCodeMatch s inp"
    using assms(2) by (simp add: keypadCodeMatch_def alarmActivationUpdate_frame)
  have d: "alarmState ?d = (\<not> keypadCodeMatch s inp)"
    using alarmDeactivationUpdate_alarmState [OF len, of inp] assms(2)
    by (simp add: alarmActivationUpdate_frame ka)
  have cs: "codeSequence ?d = codeSequence s"
    by (simp add: alarmDeactivationUpdate_frame alarmActivationUpdate_frame)
  have sd: "serialCodeMatch ?d inp = serialCodeMatch s inp"
    unfolding serialCodeMatch_def cs ..
  have "length (codeSequence ?d) = 4"
    using cs assms(1) by (simp add: stateOk_def)
  moreover have "uartTask A ?d inp = Some (s', out, rest)"
    using assms(3) by (simp add: mainLoopPass_def)
  ultimately have "alarmState s' = (alarmState ?d \<and> \<not> serialCodeMatch ?d inp)"
    by (rule uartTask_alarmState)
  then show ?thesis
    by (simp only: d sd)
qed

text \<open>
  C2. Sticky activation: from a state in which the alarm is active, the alarm is
  still active after any run of passes none of which enters a matching code by
  the keypad or by the serial command '4', whatever the sensors read. A pass
  that switches the alarm off is therefore a pass with a code match.
\<close>

theorem alarm_stays_active_without_code_match:
  assumes "stateOk s" and "alarmState s" and "noCodeMatch A s inps"
    and "mainLoop A s inps = Some s'"
  shows "alarmState s'"
  using assms
proof (induction inps arbitrary: s)
  case Nil
  then show ?case by simp
next
  case (Cons inp inps)
  from Cons.prems(4) obtain s1 out rest where
    pass: "mainLoopPass A s inp = Some (s1, out, rest)" and run: "mainLoop A s1 inps = Some s'"
    by (auto split: option.splits)
  from Cons.prems(3) pass have no: "\<not> keypadCodeMatch s inp" "\<not> serialCodeMatch s inp"
    and rest: "noCodeMatch A s1 inps"
    by simp_all
  have "alarmState s1"
    using mainLoopPass_alarmState [OF Cons.prems(1,2) pass] no by simp
  moreover have "stateOk s1"
    using Cons.prems(1) pass by (rule stateOk_mainLoopPass)
  ultimately show ?case
    using rest run by (intro Cons.IH)
qed

theorem alarm_stays_active_without_code_match_witness:
  "stateOk (the (main exact_fpu [quiet\<lparr>mq2 := False\<rparr>]))
   \<and> alarmState (the (main exact_fpu [quiet\<lparr>mq2 := False\<rparr>]))
   \<and> noCodeMatch exact_fpu (the (main exact_fpu [quiet\<lparr>mq2 := False\<rparr>]))
        [quiet, quiet\<lparr>enterButton := True\<rparr>, quiet\<lparr>uartRx := ''41000''\<rparr>]
   \<and> mainLoop exact_fpu (the (main exact_fpu [quiet\<lparr>mq2 := False\<rparr>]))
        [quiet, quiet\<lparr>enterButton := True\<rparr>, quiet\<lparr>uartRx := ''41000''\<rparr>] \<noteq> None
   \<and> alarmState (the (mainLoop exact_fpu (the (main exact_fpu [quiet\<lparr>mq2 := False\<rparr>]))
        [quiet, quiet\<lparr>enterButton := True\<rparr>, quiet\<lparr>uartRx := ''41000''\<rparr>]))"
proof -
  let ?s = "the (main exact_fpu [quiet\<lparr>mq2 := False\<rparr>])"
  let ?inps = "[quiet, quiet\<lparr>enterButton := True\<rparr>, quiet\<lparr>uartRx := ''41000''\<rparr>]"
  have h1: "stateOk ?s" by code_simp
  have h2: "alarmState ?s" by code_simp
  have h3: "noCodeMatch exact_fpu ?s ?inps" by code_simp
  have h4: "mainLoop exact_fpu ?s ?inps \<noteq> None" by code_simp
  then have h5: "mainLoop exact_fpu ?s ?inps = Some (the (mainLoop exact_fpu ?s ?inps))"
    by simp
  from alarm_stays_active_without_code_match [OF h1 h2 h3 h5] h1 h2 h3 h4
  show ?thesis by simp
qed

subsection \<open>The system-blocked indicator\<close>

lemma systemBlockedLed_mainLoopPass:
  assumes "systemBlockedLed s" and "mainLoopPass A s inp = Some (s', out, rest)"
  shows "systemBlockedLed s'"
proof -
  have "systemBlockedLed (alarmDeactivationUpdate (alarmActivationUpdate A s inp) inp)"
    using assms(1) by (simp add: alarmDeactivationUpdate_frame alarmActivationUpdate_frame)
  moreover have "uartTask A (alarmDeactivationUpdate (alarmActivationUpdate A s inp) inp) inp
      = Some (s', out, rest)"
    using assms(2) by (simp add: mainLoopPass_def)
  ultimately show ?thesis
    by (simp add: uartTask_frame)
qed

text \<open>
  C10. Once the system-blocked indicator is on it stays on for the rest of the
  run: no pass of the main loop switches it off, whatever the inputs are, a later
  matching serial code that resets the counter to 0 included.
\<close>

theorem systemBlockedLed_never_cleared:
  assumes "systemBlockedLed s" and "mainLoop A s inps = Some s'"
  shows "systemBlockedLed s'"
  using assms
proof (induction inps arbitrary: s)
  case Nil
  then show ?case by simp
next
  case (Cons inp inps)
  from Cons.prems(2) obtain s1 out rest where
    pass: "mainLoopPass A s inp = Some (s1, out, rest)" and run: "mainLoop A s1 inps = Some s'"
    by (auto split: option.splits)
  from Cons.prems(1) pass have "systemBlockedLed s1"
    by (rule systemBlockedLed_mainLoopPass)
  then show ?case using run by (rule Cons.IH)
qed

text \<open>
  Five wrong serial codes and one more pass switch the indicator on; a matching
  serial code then resets the counter and leaves the indicator on.
\<close>

theorem systemBlockedLed_never_cleared_witness:
  "systemBlockedLed (the (main exact_fpu (replicate 5 (quiet\<lparr>uartRx := ''40000''\<rparr>) @ [quiet])))
   \<and> mainLoop exact_fpu
        (the (main exact_fpu (replicate 5 (quiet\<lparr>uartRx := ''40000''\<rparr>) @ [quiet])))
        [quiet\<lparr>uartRx := ''41100''\<rparr>] \<noteq> None
   \<and> numberOfIncorrectCodes (the (mainLoop exact_fpu
        (the (main exact_fpu (replicate 5 (quiet\<lparr>uartRx := ''40000''\<rparr>) @ [quiet])))
        [quiet\<lparr>uartRx := ''41100''\<rparr>])) = 0
   \<and> systemBlockedLed (the (mainLoop exact_fpu
        (the (main exact_fpu (replicate 5 (quiet\<lparr>uartRx := ''40000''\<rparr>) @ [quiet])))
        [quiet\<lparr>uartRx := ''41100''\<rparr>]))"
proof -
  let ?s = "the (main exact_fpu (replicate 5 (quiet\<lparr>uartRx := ''40000''\<rparr>) @ [quiet]))"
  let ?inps = "[quiet\<lparr>uartRx := ''41100''\<rparr>]"
  have h1: "systemBlockedLed ?s" by code_simp
  have h2: "mainLoop exact_fpu ?s ?inps \<noteq> None" by code_simp
  then have h3: "mainLoop exact_fpu ?s ?inps = Some (the (mainLoop exact_fpu ?s ?inps))"
    by simp
  have h4: "numberOfIncorrectCodes (the (mainLoop exact_fpu ?s ?inps)) = 0" by code_simp
  from systemBlockedLed_never_cleared [OF h1 h3] h1 h2 h4
  show ?thesis by simp
qed

subsection \<open>Code entry\<close>

lemma digitMatches_invalid:
  assumes "c \<in> set ds" and "c \<noteq> CHR ''0''" and "c \<noteq> CHR ''1''"
  shows "\<not> list_all2 digitMatches ds cs"
proof
  assume all: "list_all2 digitMatches ds cs"
  from assms(1) obtain i where i: "i < length ds" "ds ! i = c"
    by (auto simp: in_set_conv_nth)
  with all have "digitMatches c (cs ! i)"
    by (auto simp: list_all2_conv_all_nth)
  with assms(2,3) show False
    by (simp add: digitMatches_def)
qed

text \<open>
  C9. The serial command '4' evaluates the code whether the alarm is active or
  not: with four bytes after it, the pass returns, a matching code resets the
  counter to 0 and clears the incorrect-code indicator, and any other code
  increments the counter. The keypad path evaluates nothing while the alarm is
  inactive: it changes neither the counter, nor the alarm, nor the stored buttons.
\<close>

theorem serial_code_entry_whatever_the_alarm:
  assumes "length (codeSequence s) = 4" and "uartRx inp = CHR ''4'' # ds @ rest"
    and "length ds = 4"
  shows "(\<exists>s' out. uartTask A s inp = Some (s', out, rest) \<and>
            (if list_all2 digitMatches ds (codeSequence s)
             then numberOfIncorrectCodes s' = 0 \<and> \<not> incorrectCodeLed s' \<and> \<not> alarmState s'
             else numberOfIncorrectCodes s' = numberOfIncorrectCodes s + 1 \<and> incorrectCodeLed s'
                  \<and> alarmState s' = alarmState s))
       \<and> (\<not> alarmState s \<longrightarrow>
            numberOfIncorrectCodes (alarmDeactivationUpdate s keys) = numberOfIncorrectCodes s
            \<and> alarmState (alarmDeactivationUpdate s keys) = alarmState s
            \<and> buttonsPressed (alarmDeactivationUpdate s keys) = buttonsPressed s)"
proof (intro conjI impI)
  show "\<exists>s' out. uartTask A s inp = Some (s', out, rest) \<and>
            (if list_all2 digitMatches ds (codeSequence s)
             then numberOfIncorrectCodes s' = 0 \<and> \<not> incorrectCodeLed s' \<and> \<not> alarmState s'
             else numberOfIncorrectCodes s' = numberOfIncorrectCodes s + 1 \<and> incorrectCodeLed s'
                  \<and> alarmState s' = alarmState s)"
    unfolding uartTask_enterCode [OF assms(2,3,1)] by simp
next
  assume off: "\<not> alarmState s"
  have "alarmDeactivationUpdate s keys = s\<lparr>systemBlockedLed := True\<rparr>
      \<or> alarmDeactivationUpdate s keys = s\<lparr>incorrectCodeLed := False\<rparr>
      \<or> alarmDeactivationUpdate s keys = s"
  proof (cases "numberOfIncorrectCodes s <s 5")
    case False
    then show ?thesis by (simp add: alarmDeactivationUpdate_blocked)
  next
    case lt: True
    show ?thesis
    proof (cases "aButton keys \<and> bButton keys \<and> cButton keys \<and> dButton keys \<and> \<not> enterButton keys")
      case True
      with lt show ?thesis by (simp add: alarmDeactivationUpdate_clear)
    next
      case False
      with lt off have "alarmDeactivationUpdate s keys = s"
        by (intro alarmDeactivationUpdate_idle) simp_all
      then show ?thesis by simp
    qed
  qed
  then show "numberOfIncorrectCodes (alarmDeactivationUpdate s keys) = numberOfIncorrectCodes s"
    and "alarmState (alarmDeactivationUpdate s keys) = alarmState s"
    and "buttonsPressed (alarmDeactivationUpdate s keys) = buttonsPressed s"
    by auto
qed

text \<open>
  After two wrong serial codes the alarm is inactive, the counter is 2 and the
  indicator is on; the matching code ''1100'' is then evaluated all the same, and the
  matching keys with the enter button are not.
\<close>

theorem serial_code_entry_whatever_the_alarm_witness:
  "length (codeSequence (the (main exact_fpu (replicate 2 (quiet\<lparr>uartRx := ''40000''\<rparr>))))) = 4
   \<and> uartRx (quiet\<lparr>uartRx := ''41100''\<rparr>) = CHR ''4'' # ''1100'' @ []
   \<and> length ''1100'' = 4
   \<and> \<not> alarmState (the (main exact_fpu (replicate 2 (quiet\<lparr>uartRx := ''40000''\<rparr>))))
   \<and> numberOfIncorrectCodes (the (main exact_fpu (replicate 2 (quiet\<lparr>uartRx := ''40000''\<rparr>)))) = 2
   \<and> uartTask exact_fpu (the (main exact_fpu (replicate 2 (quiet\<lparr>uartRx := ''40000''\<rparr>))))
        (quiet\<lparr>uartRx := ''41100''\<rparr>) \<noteq> None
   \<and> numberOfIncorrectCodes (fst (the (uartTask exact_fpu
        (the (main exact_fpu (replicate 2 (quiet\<lparr>uartRx := ''40000''\<rparr>))))
        (quiet\<lparr>uartRx := ''41100''\<rparr>)))) = 0
   \<and> numberOfIncorrectCodes (alarmDeactivationUpdate
        (the (main exact_fpu (replicate 2 (quiet\<lparr>uartRx := ''40000''\<rparr>))))
        (quiet\<lparr>aButton := True, bButton := True, enterButton := True\<rparr>)) = 2"
proof -
  let ?s = "the (main exact_fpu (replicate 2 (quiet\<lparr>uartRx := ''40000''\<rparr>)))"
  let ?inp = "quiet\<lparr>uartRx := ''41100''\<rparr>"
  let ?keys = "quiet\<lparr>aButton := True, bButton := True, enterButton := True\<rparr>"
  have h1: "length (codeSequence ?s) = 4" by code_simp
  have h2: "uartRx ?inp = CHR ''4'' # ''1100'' @ []" by simp
  have h3: "length ''1100'' = 4" by simp
  have h4: "\<not> alarmState ?s" by code_simp
  have h5: "numberOfIncorrectCodes ?s = 2" by code_simp
  have h6: "list_all2 digitMatches ''1100'' (codeSequence ?s)" by code_simp
  from serial_code_entry_whatever_the_alarm [OF h1 h2 h3, of exact_fpu ?keys] h4 h5 h6
  have "uartTask exact_fpu ?s ?inp \<noteq> None"
    and "numberOfIncorrectCodes (fst (the (uartTask exact_fpu ?s ?inp))) = 0"
    and "numberOfIncorrectCodes (alarmDeactivationUpdate ?s ?keys) = 2"
    by auto
  with h1 h2 h3 h4 h5 show ?thesis by blast
qed

text \<open>
  C6. The code comparison is digit-wise equality. When the keypad path evaluates
  (counter below 5, enter pressed, indicator off, alarm active), \<open>areEqual\<close> holds
  exactly when the four buttons, read as 1 for pressed and 0 for released, are
  the code; on a match the alarm goes off and the counter becomes 0, otherwise
  the indicator goes on and the counter is incremented. The serial command '4'
  followed by four bytes reports a correct code exactly when every byte is the
  character of the digit at its position, with the same effects.
\<close>

theorem code_comparison_is_digitwise_equality:
  assumes "stateOk s"
  shows "areEqual (readButtons s inp) =
           (codeSequence s = [of_bool (aButton inp), of_bool (bButton inp),
                              of_bool (cButton inp), of_bool (dButton inp)])
       \<and> (numberOfIncorrectCodes s <s 5 \<and> enterButton inp \<and> \<not> incorrectCodeLed s \<and> alarmState s
            \<longrightarrow> (if areEqual (readButtons s inp)
                 then \<not> alarmState (alarmDeactivationUpdate s inp)
                      \<and> numberOfIncorrectCodes (alarmDeactivationUpdate s inp) = 0
                 else alarmState (alarmDeactivationUpdate s inp)
                      \<and> incorrectCodeLed (alarmDeactivationUpdate s inp)
                      \<and> numberOfIncorrectCodes (alarmDeactivationUpdate s inp)
                          = numberOfIncorrectCodes s + 1))
       \<and> (uartRx inp = CHR ''4'' # ds @ rest \<and> length ds = 4
            \<longrightarrow> (\<exists>s' out. uartTask A s inp = Some (s', out, rest) \<and>
                  (if list_all2 digitMatches ds (codeSequence s)
                   then last out = uartUsb_write (CRLF @ ''The code is correct'' @ CRLF @ CRLF) 25
                        \<and> \<not> alarmState s' \<and> numberOfIncorrectCodes s' = 0
                   else last out = uartUsb_write (CRLF @ ''The code is incorrect'' @ CRLF @ CRLF) 27
                        \<and> alarmState s' = alarmState s \<and> incorrectCodeLed s'
                        \<and> numberOfIncorrectCodes s' = numberOfIncorrectCodes s + 1)))"
proof (intro conjI impI)
  have len: "length (codeSequence s) = 4" "length (buttonsPressed s) = 4"
    using assms by (simp_all add: stateOk_def)
  show "areEqual (readButtons s inp) =
           (codeSequence s = [of_bool (aButton inp), of_bool (bButton inp),
                              of_bool (cButton inp), of_bool (dButton inp)])"
    using len by (rule areEqual_readButtons)
  show "if areEqual (readButtons s inp)
        then \<not> alarmState (alarmDeactivationUpdate s inp)
             \<and> numberOfIncorrectCodes (alarmDeactivationUpdate s inp) = 0
        else alarmState (alarmDeactivationUpdate s inp)
             \<and> incorrectCodeLed (alarmDeactivationUpdate s inp)
             \<and> numberOfIncorrectCodes (alarmDeactivationUpdate s inp)
                 = numberOfIncorrectCodes s + 1"
    if "numberOfIncorrectCodes s <s 5 \<and> enterButton inp \<and> \<not> incorrectCodeLed s \<and> alarmState s"
    using that by (simp add: alarmDeactivationUpdate_evaluate)
  show "\<exists>s' out. uartTask A s inp = Some (s', out, rest) \<and>
                  (if list_all2 digitMatches ds (codeSequence s)
                   then last out = uartUsb_write (CRLF @ ''The code is correct'' @ CRLF @ CRLF) 25
                        \<and> \<not> alarmState s' \<and> numberOfIncorrectCodes s' = 0
                   else last out = uartUsb_write (CRLF @ ''The code is incorrect'' @ CRLF @ CRLF) 27
                        \<and> alarmState s' = alarmState s \<and> incorrectCodeLed s'
                        \<and> numberOfIncorrectCodes s' = numberOfIncorrectCodes s + 1)"
    if "uartRx inp = CHR ''4'' # ds @ rest \<and> length ds = 4"
  proof -
    from that have rx: "uartRx inp = CHR ''4'' # ds @ rest" and l4: "length ds = 4"
      by simp_all
    show ?thesis
      unfolding uartTask_enterCode [OF rx l4 len(1)] by simp
  qed
qed

text \<open>
  With the initial code 1100 and the alarm set off by gas: the keys A and B with
  enter match, and so do the bytes ''1100'' after the command '4'.
\<close>

theorem code_comparison_is_digitwise_equality_witness:
  "stateOk (the (main exact_fpu [quiet\<lparr>mq2 := False\<rparr>]))
   \<and> numberOfIncorrectCodes (the (main exact_fpu [quiet\<lparr>mq2 := False\<rparr>])) <s 5
   \<and> enterButton (quiet\<lparr>aButton := True, bButton := True, enterButton := True,
                        uartRx := ''41100''\<rparr>)
   \<and> \<not> incorrectCodeLed (the (main exact_fpu [quiet\<lparr>mq2 := False\<rparr>]))
   \<and> alarmState (the (main exact_fpu [quiet\<lparr>mq2 := False\<rparr>]))
   \<and> uartRx (quiet\<lparr>aButton := True, bButton := True, enterButton := True,
                   uartRx := ''41100''\<rparr>) = CHR ''4'' # ''1100'' @ []
   \<and> length ''1100'' = 4
   \<and> areEqual (readButtons (the (main exact_fpu [quiet\<lparr>mq2 := False\<rparr>]))
        (quiet\<lparr>aButton := True, bButton := True, enterButton := True, uartRx := ''41100''\<rparr>))
   \<and> \<not> alarmState (alarmDeactivationUpdate (the (main exact_fpu [quiet\<lparr>mq2 := False\<rparr>]))
        (quiet\<lparr>aButton := True, bButton := True, enterButton := True, uartRx := ''41100''\<rparr>))
   \<and> uartTask exact_fpu (the (main exact_fpu [quiet\<lparr>mq2 := False\<rparr>]))
        (quiet\<lparr>aButton := True, bButton := True, enterButton := True, uartRx := ''41100''\<rparr>)
       \<noteq> None
   \<and> \<not> alarmState (fst (the (uartTask exact_fpu (the (main exact_fpu [quiet\<lparr>mq2 := False\<rparr>]))
        (quiet\<lparr>aButton := True, bButton := True, enterButton := True, uartRx := ''41100''\<rparr>))))"
proof -
  let ?s = "the (main exact_fpu [quiet\<lparr>mq2 := False\<rparr>])"
  let ?inp = "quiet\<lparr>aButton := True, bButton := True, enterButton := True, uartRx := ''41100''\<rparr>"
  have h1: "stateOk ?s" by code_simp
  have h2: "numberOfIncorrectCodes ?s <s 5" by code_simp
  have h3: "enterButton ?inp" by simp
  have h4: "\<not> incorrectCodeLed ?s" by code_simp
  have h5: "alarmState ?s" by code_simp
  have h6: "uartRx ?inp = CHR ''4'' # ''1100'' @ []" by simp
  have h7: "length ''1100'' = 4" by simp
  have h8: "codeSequence ?s = [of_bool (aButton ?inp), of_bool (bButton ?inp),
                               of_bool (cButton ?inp), of_bool (dButton ?inp)]" by code_simp
  have h9: "list_all2 digitMatches ''1100'' (codeSequence ?s)" by code_simp
  from code_comparison_is_digitwise_equality [OF h1, of ?inp "''1100''" "[]" exact_fpu]
    h2 h3 h4 h5 h6 h7 h8 h9
  have "areEqual (readButtons ?s ?inp)"
    and "\<not> alarmState (alarmDeactivationUpdate ?s ?inp)"
    and "uartTask exact_fpu ?s ?inp \<noteq> None"
    and "\<not> alarmState (fst (the (uartTask exact_fpu ?s ?inp)))"
    by auto
  with h1 h2 h3 h4 h5 h6 h7 show ?thesis by blast
qed

text \<open>
  C7. After the command '4' and four bytes, the pass consumes the four bytes and
  echoes one '*' for each between the prompt and the report; a byte other than
  '0' and '1' among them makes the report "incorrect". After the command '5' and
  four bytes, the pass consumes and echoes them in the same way, and each
  position of the code takes the digit of its byte, or keeps its digit when the
  byte is neither '0' nor '1'.
\<close>

theorem serial_invalid_digits:
  assumes "length (codeSequence s) = 4" and "length ds = 4"
  shows "(uartRx inp = CHR ''4'' # ds @ rest \<longrightarrow>
            (\<exists>s' report.
               uartTask A s inp =
                 Some (s', Printf ''UART Task initiated.'' # enterCodePrompt
                             @ replicate 4 (uartUsb_write ''*'' 1) @ [report], rest)
               \<and> ((\<exists>c \<in> set ds. c \<noteq> CHR ''0'' \<and> c \<noteq> CHR ''1'') \<longrightarrow>
                    report = uartUsb_write (CRLF @ ''The code is incorrect'' @ CRLF @ CRLF) 27
                    \<and> incorrectCodeLed s'
                    \<and> numberOfIncorrectCodes s' = numberOfIncorrectCodes s + 1
                    \<and> alarmState s' = alarmState s)))
       \<and> (uartRx inp = CHR ''5'' # ds @ rest \<longrightarrow>
            (\<exists>s'. uartTask A s inp =
                 Some (s', Printf ''UART Task initiated.'' # newCodePrompt
                             @ replicate 4 (uartUsb_write ''*'' 1)
                             @ [uartUsb_write (CRLF @ ''New code generated'' @ CRLF @ CRLF) 24],
                       rest)
               \<and> length (codeSequence s') = 4
               \<and> (\<forall>i < 4. codeSequence s' ! i =
                     (if ds ! i = CHR ''1'' then 1
                      else if ds ! i = CHR ''0'' then 0
                      else codeSequence s ! i))))"
proof (intro conjI impI)
  assume rx: "uartRx inp = CHR ''4'' # ds @ rest"
  have bad: "\<not> list_all2 digitMatches ds (codeSequence s)"
    if "\<exists>c \<in> set ds. c \<noteq> CHR ''0'' \<and> c \<noteq> CHR ''1''"
    using that digitMatches_invalid by blast
  show "\<exists>s' report.
               uartTask A s inp =
                 Some (s', Printf ''UART Task initiated.'' # enterCodePrompt
                             @ replicate 4 (uartUsb_write ''*'' 1) @ [report], rest)
               \<and> ((\<exists>c \<in> set ds. c \<noteq> CHR ''0'' \<and> c \<noteq> CHR ''1'') \<longrightarrow>
                    report = uartUsb_write (CRLF @ ''The code is incorrect'' @ CRLF @ CRLF) 27
                    \<and> incorrectCodeLed s'
                    \<and> numberOfIncorrectCodes s' = numberOfIncorrectCodes s + 1
                    \<and> alarmState s' = alarmState s)"
    unfolding uartTask_enterCode [OF rx assms(2,1)] using bad by auto
next
  assume rx: "uartRx inp = CHR ''5'' # ds @ rest"
  have nth: "map2 storeDigit ds (codeSequence s) ! i =
      (if ds ! i = CHR ''1'' then 1 else if ds ! i = CHR ''0'' then 0 else codeSequence s ! i)"
    if "i < 4" for i
    using that assms by (simp add: storeDigit_def)
  show "\<exists>s'. uartTask A s inp =
                 Some (s', Printf ''UART Task initiated.'' # newCodePrompt
                             @ replicate 4 (uartUsb_write ''*'' 1)
                             @ [uartUsb_write (CRLF @ ''New code generated'' @ CRLF @ CRLF) 24],
                       rest)
               \<and> length (codeSequence s') = 4
               \<and> (\<forall>i < 4. codeSequence s' ! i =
                     (if ds ! i = CHR ''1'' then 1
                      else if ds ! i = CHR ''0'' then 0
                      else codeSequence s ! i))"
    unfolding uartTask_newCode [OF rx assms(2,1)] using nth assms by simp
qed

text \<open>
  With the initial code 1100: the bytes ''1x00'' after '4' are reported incorrect, and
  the bytes ''0x10'' after '5' leave the code 0110, its second digit kept.
\<close>

theorem serial_invalid_digits_witness:
  "length (codeSequence (globalsInit exact_fpu)) = 4 \<and> length ''1x00'' = 4 \<and> length ''0x10'' = 4
   \<and> uartRx (quiet\<lparr>uartRx := ''41x00''\<rparr>) = CHR ''4'' # ''1x00'' @ []
   \<and> uartRx (quiet\<lparr>uartRx := ''50x10''\<rparr>) = CHR ''5'' # ''0x10'' @ []
   \<and> CHR ''x'' \<in> set ''1x00''
   \<and> map_option (\<lambda>(s', out, rest). (numberOfIncorrectCodes s', last out, rest))
        (uartTask exact_fpu (globalsInit exact_fpu) (quiet\<lparr>uartRx := ''41x00''\<rparr>))
      = Some (1, uartUsb_write (CRLF @ ''The code is incorrect'' @ CRLF @ CRLF) 27, [])
   \<and> map_option (\<lambda>(s', out, rest). (codeSequence s', rest))
        (uartTask exact_fpu (globalsInit exact_fpu) (quiet\<lparr>uartRx := ''50x10''\<rparr>))
      = Some ([0, 1, 1, 0], [])"
proof -
  let ?s = "globalsInit exact_fpu"
  have h1: "length (codeSequence ?s) = 4" by (simp add: globalsInit_def)
  have h2: "length ''1x00'' = 4" and h3: "length ''0x10'' = 4" by simp_all
  have h4: "uartRx (quiet\<lparr>uartRx := ''41x00''\<rparr>) = CHR ''4'' # ''1x00'' @ []" by simp
  have h5: "uartRx (quiet\<lparr>uartRx := ''50x10''\<rparr>) = CHR ''5'' # ''0x10'' @ []" by simp
  have h6: "CHR ''x'' \<in> set ''1x00''" by simp
  have cs: "codeSequence ?s = [1, 1, 0, 0]" and n: "numberOfIncorrectCodes ?s = 0"
    by (simp_all add: globalsInit_def)
  from serial_invalid_digits [OF h1 h2, of "quiet\<lparr>uartRx := ''41x00''\<rparr>" "[]" exact_fpu] h4 h6 n
  have a: "map_option (\<lambda>(s', out, rest). (numberOfIncorrectCodes s', last out, rest))
        (uartTask exact_fpu ?s (quiet\<lparr>uartRx := ''41x00''\<rparr>))
      = Some (1, uartUsb_write (CRLF @ ''The code is incorrect'' @ CRLF @ CRLF) 27, [])"
    by auto
  from serial_invalid_digits [OF h1 h3, of "quiet\<lparr>uartRx := ''50x10''\<rparr>" "[]" exact_fpu] h5
  obtain s' where u: "uartTask exact_fpu ?s (quiet\<lparr>uartRx := ''50x10''\<rparr>) =
                 Some (s', Printf ''UART Task initiated.'' # newCodePrompt
                             @ replicate 4 (uartUsb_write ''*'' 1)
                             @ [uartUsb_write (CRLF @ ''New code generated'' @ CRLF @ CRLF) 24],
                       [])"
    and l: "length (codeSequence s') = 4"
    and d: "\<forall>i < 4. codeSequence s' ! i =
                     (if ''0x10'' ! i = CHR ''1'' then 1
                      else if ''0x10'' ! i = CHR ''0'' then 0
                      else codeSequence ?s ! i)"
    by blast
  from d have "codeSequence s' ! 0 = 0" "codeSequence s' ! 1 = 1" "codeSequence s' ! 2 = 1"
    "codeSequence s' ! 3 = 0"
    by (simp_all add: cs)
  with l have "codeSequence s' = [0, 1, 1, 0]"
    by (auto simp: list_eq_iff_nth_eq less_Suc_eq numeral_eq_Suc)
  with u have b: "map_option (\<lambda>(s', out, rest). (codeSequence s', rest))
        (uartTask exact_fpu ?s (quiet\<lparr>uartRx := ''50x10''\<rparr>)) = Some ([0, 1, 1, 0], [])"
    by simp
  from h1 h2 h3 h4 h5 h6 a b show ?thesis by blast
qed

subsection \<open>The incorrect-code indicator and the keypad\<close>

lemma keypadEvaluates_iff:
  "keypadEvaluates s inp =
     (numberOfIncorrectCodes s <s 5 \<and> enterButton inp \<and> \<not> incorrectCodeLed s \<and> alarmState s)"
  by (cases "enterButton inp") (simp_all add: keypadEvaluates_def)

lemma alarmDeactivationUpdate_no_evaluation:
  assumes "\<not> keypadEvaluates s inp"
  shows "alarmState (alarmDeactivationUpdate s inp) = alarmState s"
    and "numberOfIncorrectCodes (alarmDeactivationUpdate s inp) = numberOfIncorrectCodes s"
    and "buttonsPressed (alarmDeactivationUpdate s inp) = buttonsPressed s"
    and "incorrectCodeLed (alarmDeactivationUpdate s inp) = (incorrectCodeLed s \<and> \<not> keypadRelease s inp)"
proof -
  have "alarmState (alarmDeactivationUpdate s inp) = alarmState s
      \<and> numberOfIncorrectCodes (alarmDeactivationUpdate s inp) = numberOfIncorrectCodes s
      \<and> buttonsPressed (alarmDeactivationUpdate s inp) = buttonsPressed s
      \<and> incorrectCodeLed (alarmDeactivationUpdate s inp) = (incorrectCodeLed s \<and> \<not> keypadRelease s inp)"
  proof (cases "numberOfIncorrectCodes s <s 5")
    case False
    then show ?thesis
      by (simp add: alarmDeactivationUpdate_blocked keypadRelease_def)
  next
    case lt: True
    show ?thesis
    proof (cases "aButton inp \<and> bButton inp \<and> cButton inp \<and> dButton inp \<and> \<not> enterButton inp")
      case True
      with lt show ?thesis
        by (simp add: alarmDeactivationUpdate_clear keypadRelease_def)
    next
      case nc: False
      from assms lt have "\<not> (enterButton inp \<and> \<not> incorrectCodeLed s \<and> alarmState s)"
        by (simp add: keypadEvaluates_iff)
      with lt nc have "alarmDeactivationUpdate s inp = s"
        by (intro alarmDeactivationUpdate_idle)
      with nc show ?thesis
        by (auto simp: keypadRelease_def)
    qed
  qed
  then show "alarmState (alarmDeactivationUpdate s inp) = alarmState s"
    and "numberOfIncorrectCodes (alarmDeactivationUpdate s inp) = numberOfIncorrectCodes s"
    and "buttonsPressed (alarmDeactivationUpdate s inp) = buttonsPressed s"
    and "incorrectCodeLed (alarmDeactivationUpdate s inp) = (incorrectCodeLed s \<and> \<not> keypadRelease s inp)"
    by simp_all
qed

lemma alarmDeactivationUpdate_evaluation:
  assumes "keypadEvaluates s inp" and "length (codeSequence s) = 4"
    and "length (buttonsPressed s) = 4"
  shows "buttonsPressed (alarmDeactivationUpdate s inp) =
           [of_bool (aButton inp), of_bool (bButton inp),
            of_bool (cButton inp), of_bool (dButton inp)]
       \<and> (if codeSequence s = [of_bool (aButton inp), of_bool (bButton inp),
                               of_bool (cButton inp), of_bool (dButton inp)]
          then \<not> alarmState (alarmDeactivationUpdate s inp)
               \<and> numberOfIncorrectCodes (alarmDeactivationUpdate s inp) = 0
               \<and> \<not> incorrectCodeLed (alarmDeactivationUpdate s inp)
          else alarmState (alarmDeactivationUpdate s inp)
               \<and> numberOfIncorrectCodes (alarmDeactivationUpdate s inp)
                   = numberOfIncorrectCodes s + 1
               \<and> incorrectCodeLed (alarmDeactivationUpdate s inp))"
proof -
  from assms(1) have g: "numberOfIncorrectCodes s <s 5" "enterButton inp" "\<not> incorrectCodeLed s"
    "alarmState s"
    by (simp_all add: keypadEvaluates_iff)
  show ?thesis
    using areEqual_readButtons [OF assms(2,3), of inp] g
    by (simp add: alarmDeactivationUpdate_evaluate [OF g] readButtons_eq [OF assms(3)])
qed

lemma uartTask_incorrectCodeLed:
  assumes "length (codeSequence s) = 4" and "uartTask A s inp = Some (s', out, rest)"
  shows "incorrectCodeLed s' =
           (if serialCodeEntry inp then \<not> serialCodeMatch s inp else incorrectCodeLed s)"
proof (cases "uartRx inp")
  case Nil
  with assms(2) show ?thesis
    by (simp add: uartTask_def serialCodeEntry_def)
next
  case (Cons c rx)
  show ?thesis
  proof (cases "c = CHR ''4''")
    case False
    with Cons assms(2) show ?thesis
      by (simp add: uartTask_other_command(3) serialCodeEntry_def)
  next
    case True
    with Cons assms(2) have len: "4 \<le> length rx"
      by (intro uartTask_enterCode_length) simp_all
    then have rx: "uartRx inp = CHR ''4'' # take 4 rx @ drop 4 rx" and l4: "length (take 4 rx) = 4"
      using Cons True by simp_all
    from uartTask_enterCode [OF rx l4 assms(1), of A] assms(2) show ?thesis
      using Cons True by (auto simp: serialCodeMatch_def serialCodeEntry_def split: if_splits)
  qed
qed

text \<open>The indicator at the end of a pass, from its value and the events of the pass.\<close>

lemma mainLoopPass_incorrectCodeLed:
  assumes "stateOk s" and "mainLoopPass A s inp = Some (s', out, rest)"
    and "\<not> keypadEvaluates (alarmActivationUpdate A s inp) inp"
  shows "incorrectCodeLed s' =
           (if serialCodeEntry inp then \<not> serialCodeMatch s inp
            else incorrectCodeLed s \<and> \<not> keypadRelease s inp)"
proof -
  let ?a = "alarmActivationUpdate A s inp"
  let ?d = "alarmDeactivationUpdate ?a inp"
  have kr: "keypadRelease ?a inp = keypadRelease s inp"
    by (simp add: keypadRelease_def alarmActivationUpdate_frame)
  have led: "incorrectCodeLed ?d = (incorrectCodeLed s \<and> \<not> keypadRelease s inp)"
    using alarmDeactivationUpdate_no_evaluation(4) [OF assms(3)]
    by (simp add: kr alarmActivationUpdate_frame)
  have cs: "codeSequence ?d = codeSequence s"
    by (simp add: alarmDeactivationUpdate_frame alarmActivationUpdate_frame)
  have sd: "serialCodeMatch ?d inp = serialCodeMatch s inp"
    unfolding serialCodeMatch_def cs ..
  have "length (codeSequence ?d) = 4"
    using cs assms(1) by (simp add: stateOk_def)
  moreover have "uartTask A ?d inp = Some (s', out, rest)"
    using assms(2) by (simp add: mainLoopPass_def)
  ultimately have "incorrectCodeLed s' =
           (if serialCodeEntry inp then \<not> serialCodeMatch ?d inp else incorrectCodeLed ?d)"
    by (rule uartTask_incorrectCodeLed)
  then show ?thesis
    by (simp only: led sd)
qed

lemma indicator_on_no_evaluation:
  "incorrectCodeLed s \<Longrightarrow> \<not> keypadEvaluates (alarmActivationUpdate A s inp) inp"
  by (simp add: keypadEvaluates_iff alarmActivationUpdate_frame)

lemma serialCodeMatch_entry: "serialCodeMatch s inp \<Longrightarrow> serialCodeEntry inp"
  by (auto simp: serialCodeMatch_def serialCodeEntry_def split: list.splits)

lemma indicator_gate_run:
  assumes "stateOk s" and "incorrectCodeLed s" and "noRelease A s inps"
  shows "noKeypadEvaluation A s inps"
    and "mainLoop A s inps = Some s' \<Longrightarrow> incorrectCodeLed s'"
proof -
  have "noKeypadEvaluation A s inps \<and> (mainLoop A s inps = Some s' \<longrightarrow> incorrectCodeLed s')"
    using assms
  proof (induction inps arbitrary: s)
    case Nil
    then show ?case by auto
  next
    case (Cons inp inps)
    have ne: "\<not> keypadEvaluates (alarmActivationUpdate A s inp) inp"
      using Cons.prems(2) by (rule indicator_on_no_evaluation)
    from Cons.prems(3) have nr: "\<not> keypadRelease s inp" "\<not> serialCodeMatch s inp"
      by simp_all
    show ?case
    proof (cases "mainLoopPass A s inp")
      case None
      with ne show ?thesis by simp
    next
      case (Some r)
      then obtain s1 out rest where pass: "mainLoopPass A s inp = Some (s1, out, rest)"
        by (cases r) auto
      have ok1: "stateOk s1"
        using Cons.prems(1) pass by (rule stateOk_mainLoopPass)
      have led1: "incorrectCodeLed s1"
        using mainLoopPass_incorrectCodeLed [OF Cons.prems(1) pass ne] nr Cons.prems(2)
        by (simp split: if_splits)
      have nr1: "noRelease A s1 inps"
        using Cons.prems(3) pass by simp
      from Cons.IH [OF ok1 led1 nr1] ne pass show ?thesis
        by simp
    qed
  qed
  then show "noKeypadEvaluation A s inps"
    and "mainLoop A s inps = Some s' \<Longrightarrow> incorrectCodeLed s'"
    by simp_all
qed

lemma mainLoopPass_serial_match:
  assumes "stateOk s" and "mainLoopPass A s inp = Some (s', out, rest)"
    and "serialCodeMatch s inp"
  shows "\<not> incorrectCodeLed s'"
proof -
  let ?d = "alarmDeactivationUpdate (alarmActivationUpdate A s inp) inp"
  have cs: "codeSequence ?d = codeSequence s"
    by (simp add: alarmDeactivationUpdate_frame alarmActivationUpdate_frame)
  have sd: "serialCodeMatch ?d inp = serialCodeMatch s inp"
    unfolding serialCodeMatch_def cs ..
  have "length (codeSequence ?d) = 4"
    using cs assms(1) by (simp add: stateOk_def)
  moreover have "uartTask A ?d inp = Some (s', out, rest)"
    using assms(2) by (simp add: mainLoopPass_def)
  ultimately have "incorrectCodeLed s' =
           (if serialCodeEntry inp then \<not> serialCodeMatch ?d inp else incorrectCodeLed ?d)"
    by (rule uartTask_incorrectCodeLed)
  with assms(3) serialCodeMatch_entry [OF assms(3)] show ?thesis
    by (simp add: sd)
qed

lemma mainLoopPass_keypad_release:
  assumes "stateOk s" and "mainLoopPass A s inp = Some (s', out, rest)"
    and "keypadRelease s inp"
  shows "\<not> keypadEvaluates (alarmActivationUpdate A s inp) inp"
    and "incorrectCodeLed s' = (serialCodeEntry inp \<and> \<not> serialCodeMatch s inp)"
proof -
  from assms(3) have "\<not> enterButton inp"
    by (simp add: keypadRelease_def)
  then show ne: "\<not> keypadEvaluates (alarmActivationUpdate A s inp) inp"
    by (simp add: keypadEvaluates_iff)
  from mainLoopPass_incorrectCodeLed [OF assms(1,2) ne] assms(3)
  show "incorrectCodeLed s' = (serialCodeEntry inp \<and> \<not> serialCodeMatch s inp)"
    by simp
qed

text \<open>
  C3, as the code has it. Once the incorrect-code indicator is on, it stays on
  and the keypad path evaluates no code in any later pass of the main loop, as
  long as no pass releases it. Two events release it: a pass in which, with the
  counter below 5, the four buttons A, B, C and D all read high (pressed) and the
  enter button reads low, and a pass in which the serial command '4' brings the
  matching code. The first clears the indicator without evaluating the buttons
  in that pass (a wrong serial code received in the same pass sets it again);
  the second clears it at the end of the pass. A pass in which the keypad path
  does not evaluate leaves the alarm, the counter and the stored buttons as
  \<open>alarmDeactivationUpdate\<close> received them; a pass in which it evaluates, which
  requires the indicator off, stores the four buttons and compares them with the
  code: on a match the alarm goes off and the counter becomes 0, otherwise the
  indicator goes on and the counter is incremented.
\<close>

theorem incorrect_code_indicator_gate:
  assumes "stateOk s"
  shows "(incorrectCodeLed s \<and> noRelease A s inps \<longrightarrow>
            noKeypadEvaluation A s inps
            \<and> (\<forall>s'. mainLoop A s inps = Some s' \<longrightarrow> incorrectCodeLed s'))
       \<and> (\<forall>s' out rest. mainLoopPass A s inp = Some (s', out, rest) \<longrightarrow>
            (keypadRelease s inp \<longrightarrow>
               \<not> keypadEvaluates (alarmActivationUpdate A s inp) inp
               \<and> incorrectCodeLed s' = (serialCodeEntry inp \<and> \<not> serialCodeMatch s inp))
            \<and> (serialCodeMatch s inp \<longrightarrow> \<not> incorrectCodeLed s'))
       \<and> (\<not> keypadEvaluates s inp \<longrightarrow>
            alarmState (alarmDeactivationUpdate s inp) = alarmState s
            \<and> numberOfIncorrectCodes (alarmDeactivationUpdate s inp) = numberOfIncorrectCodes s
            \<and> buttonsPressed (alarmDeactivationUpdate s inp) = buttonsPressed s)
       \<and> (keypadEvaluates s inp \<longrightarrow>
            \<not> incorrectCodeLed s
            \<and> buttonsPressed (alarmDeactivationUpdate s inp) =
                [of_bool (aButton inp), of_bool (bButton inp),
                 of_bool (cButton inp), of_bool (dButton inp)]
            \<and> (if codeSequence s = [of_bool (aButton inp), of_bool (bButton inp),
                                    of_bool (cButton inp), of_bool (dButton inp)]
               then \<not> alarmState (alarmDeactivationUpdate s inp)
                    \<and> numberOfIncorrectCodes (alarmDeactivationUpdate s inp) = 0
                    \<and> \<not> incorrectCodeLed (alarmDeactivationUpdate s inp)
               else alarmState (alarmDeactivationUpdate s inp)
                    \<and> numberOfIncorrectCodes (alarmDeactivationUpdate s inp)
                        = numberOfIncorrectCodes s + 1
                    \<and> incorrectCodeLed (alarmDeactivationUpdate s inp)))"
proof (intro conjI impI allI)
  assume g: "incorrectCodeLed s \<and> noRelease A s inps"
  then show "noKeypadEvaluation A s inps"
    using assms by (intro indicator_gate_run(1)) simp_all
  show "incorrectCodeLed s'" if "mainLoop A s inps = Some s'" for s'
    using assms g that by (intro indicator_gate_run(2) [of s A inps s']) simp_all
next
  fix s' out rest
  assume pass: "mainLoopPass A s inp = Some (s', out, rest)"
  {
    assume "keypadRelease s inp"
    with assms pass show "\<not> keypadEvaluates (alarmActivationUpdate A s inp) inp"
      and "incorrectCodeLed s' = (serialCodeEntry inp \<and> \<not> serialCodeMatch s inp)"
      by (rule mainLoopPass_keypad_release)+
  }
  {
    assume "serialCodeMatch s inp"
    with assms pass show "\<not> incorrectCodeLed s'"
      by (rule mainLoopPass_serial_match)
  }
next
  assume "\<not> keypadEvaluates s inp"
  then show "alarmState (alarmDeactivationUpdate s inp) = alarmState s"
    and "numberOfIncorrectCodes (alarmDeactivationUpdate s inp) = numberOfIncorrectCodes s"
    and "buttonsPressed (alarmDeactivationUpdate s inp) = buttonsPressed s"
    by (rule alarmDeactivationUpdate_no_evaluation)+
next
  assume ev: "keypadEvaluates s inp"
  then show "\<not> incorrectCodeLed s"
    by (simp add: keypadEvaluates_iff)
  have len: "length (codeSequence s) = 4" "length (buttonsPressed s) = 4"
    using assms by (simp_all add: stateOk_def)
  from alarmDeactivationUpdate_evaluation [OF ev len]
  show "buttonsPressed (alarmDeactivationUpdate s inp) =
                [of_bool (aButton inp), of_bool (bButton inp),
                 of_bool (cButton inp), of_bool (dButton inp)]"
    and "if codeSequence s = [of_bool (aButton inp), of_bool (bButton inp),
                                    of_bool (cButton inp), of_bool (dButton inp)]
               then \<not> alarmState (alarmDeactivationUpdate s inp)
                    \<and> numberOfIncorrectCodes (alarmDeactivationUpdate s inp) = 0
                    \<and> \<not> incorrectCodeLed (alarmDeactivationUpdate s inp)
               else alarmState (alarmDeactivationUpdate s inp)
                    \<and> numberOfIncorrectCodes (alarmDeactivationUpdate s inp)
                        = numberOfIncorrectCodes s + 1
                    \<and> incorrectCodeLed (alarmDeactivationUpdate s inp)"
    by simp_all
qed

text \<open>
  The alarm is set off by gas and a wrong code is entered with the keypad: the
  indicator is on. Through a pass with everything released, a pass with the
  matching keys and enter, and a pass with a wrong serial code, the keypad path
  evaluates nothing and the indicator stays on. A pass with the four buttons
  pressed clears it, and so does a pass with the matching serial code. With the
  indicator on, the matching keys leave the alarm active; after the four-button
  pass they are evaluated and switch it off.
\<close>

theorem incorrect_code_indicator_gate_witness:
  "stateOk (the (main exact_fpu [quiet\<lparr>mq2 := False\<rparr>, quiet\<lparr>enterButton := True\<rparr>]))
   \<and> incorrectCodeLed (the (main exact_fpu [quiet\<lparr>mq2 := False\<rparr>, quiet\<lparr>enterButton := True\<rparr>]))
   \<and> noRelease exact_fpu
        (the (main exact_fpu [quiet\<lparr>mq2 := False\<rparr>, quiet\<lparr>enterButton := True\<rparr>]))
        [quiet, quiet\<lparr>aButton := True, bButton := True, enterButton := True\<rparr>,
         quiet\<lparr>uartRx := ''40000''\<rparr>]
   \<and> mainLoop exact_fpu
        (the (main exact_fpu [quiet\<lparr>mq2 := False\<rparr>, quiet\<lparr>enterButton := True\<rparr>]))
        [quiet, quiet\<lparr>aButton := True, bButton := True, enterButton := True\<rparr>,
         quiet\<lparr>uartRx := ''40000''\<rparr>] \<noteq> None
   \<and> noKeypadEvaluation exact_fpu
        (the (main exact_fpu [quiet\<lparr>mq2 := False\<rparr>, quiet\<lparr>enterButton := True\<rparr>]))
        [quiet, quiet\<lparr>aButton := True, bButton := True, enterButton := True\<rparr>,
         quiet\<lparr>uartRx := ''40000''\<rparr>]
   \<and> incorrectCodeLed (the (mainLoop exact_fpu
        (the (main exact_fpu [quiet\<lparr>mq2 := False\<rparr>, quiet\<lparr>enterButton := True\<rparr>]))
        [quiet, quiet\<lparr>aButton := True, bButton := True, enterButton := True\<rparr>,
         quiet\<lparr>uartRx := ''40000''\<rparr>]))
   \<and> keypadRelease (the (main exact_fpu [quiet\<lparr>mq2 := False\<rparr>, quiet\<lparr>enterButton := True\<rparr>]))
        (quiet\<lparr>aButton := True, bButton := True, cButton := True, dButton := True\<rparr>)
   \<and> mainLoopPass exact_fpu
        (the (main exact_fpu [quiet\<lparr>mq2 := False\<rparr>, quiet\<lparr>enterButton := True\<rparr>]))
        (quiet\<lparr>aButton := True, bButton := True, cButton := True, dButton := True\<rparr>) \<noteq> None
   \<and> \<not> incorrectCodeLed (fst (the (mainLoopPass exact_fpu
        (the (main exact_fpu [quiet\<lparr>mq2 := False\<rparr>, quiet\<lparr>enterButton := True\<rparr>]))
        (quiet\<lparr>aButton := True, bButton := True, cButton := True, dButton := True\<rparr>))))
   \<and> serialCodeMatch (the (main exact_fpu [quiet\<lparr>mq2 := False\<rparr>, quiet\<lparr>enterButton := True\<rparr>]))
        (quiet\<lparr>uartRx := ''41100''\<rparr>)
   \<and> mainLoopPass exact_fpu
        (the (main exact_fpu [quiet\<lparr>mq2 := False\<rparr>, quiet\<lparr>enterButton := True\<rparr>]))
        (quiet\<lparr>uartRx := ''41100''\<rparr>) \<noteq> None
   \<and> \<not> incorrectCodeLed (fst (the (mainLoopPass exact_fpu
        (the (main exact_fpu [quiet\<lparr>mq2 := False\<rparr>, quiet\<lparr>enterButton := True\<rparr>]))
        (quiet\<lparr>uartRx := ''41100''\<rparr>))))
   \<and> \<not> keypadEvaluates (alarmActivationUpdate exact_fpu
        (the (main exact_fpu [quiet\<lparr>mq2 := False\<rparr>, quiet\<lparr>enterButton := True\<rparr>]))
        (quiet\<lparr>aButton := True, bButton := True, enterButton := True\<rparr>))
        (quiet\<lparr>aButton := True, bButton := True, enterButton := True\<rparr>)
   \<and> alarmState (alarmDeactivationUpdate (alarmActivationUpdate exact_fpu
        (the (main exact_fpu [quiet\<lparr>mq2 := False\<rparr>, quiet\<lparr>enterButton := True\<rparr>]))
        (quiet\<lparr>aButton := True, bButton := True, enterButton := True\<rparr>))
        (quiet\<lparr>aButton := True, bButton := True, enterButton := True\<rparr>))
   \<and> keypadEvaluates (alarmActivationUpdate exact_fpu
        (fst (the (mainLoopPass exact_fpu
          (the (main exact_fpu [quiet\<lparr>mq2 := False\<rparr>, quiet\<lparr>enterButton := True\<rparr>]))
          (quiet\<lparr>aButton := True, bButton := True, cButton := True, dButton := True\<rparr>))))
        (quiet\<lparr>aButton := True, bButton := True, enterButton := True\<rparr>))
        (quiet\<lparr>aButton := True, bButton := True, enterButton := True\<rparr>)
   \<and> \<not> alarmState (alarmDeactivationUpdate (alarmActivationUpdate exact_fpu
        (fst (the (mainLoopPass exact_fpu
          (the (main exact_fpu [quiet\<lparr>mq2 := False\<rparr>, quiet\<lparr>enterButton := True\<rparr>]))
          (quiet\<lparr>aButton := True, bButton := True, cButton := True, dButton := True\<rparr>))))
        (quiet\<lparr>aButton := True, bButton := True, enterButton := True\<rparr>))
        (quiet\<lparr>aButton := True, bButton := True, enterButton := True\<rparr>))"
proof -
  let ?s = "the (main exact_fpu [quiet\<lparr>mq2 := False\<rparr>, quiet\<lparr>enterButton := True\<rparr>])"
  let ?keys = "quiet\<lparr>aButton := True, bButton := True, enterButton := True\<rparr>"
  let ?inps = "[quiet, ?keys, quiet\<lparr>uartRx := ''40000''\<rparr>]"
  let ?all = "quiet\<lparr>aButton := True, bButton := True, cButton := True, dButton := True\<rparr>"
  let ?code = "quiet\<lparr>uartRx := ''41100''\<rparr>"
  let ?t = "fst (the (mainLoopPass exact_fpu ?s ?all))"
  let ?a = "alarmActivationUpdate exact_fpu ?s ?keys"
  let ?b = "alarmActivationUpdate exact_fpu ?t ?keys"
  have h1: "stateOk ?s" by code_simp
  have h2: "incorrectCodeLed ?s" by code_simp
  have h3: "noRelease exact_fpu ?s ?inps" by code_simp
  have h4: "mainLoop exact_fpu ?s ?inps \<noteq> None" by code_simp
  then have h4': "mainLoop exact_fpu ?s ?inps = Some (the (mainLoop exact_fpu ?s ?inps))"
    by simp
  have h5: "keypadRelease ?s ?all" by code_simp
  have h6: "mainLoopPass exact_fpu ?s ?all \<noteq> None" by code_simp
  then obtain s1 out1 rest1 where p1: "mainLoopPass exact_fpu ?s ?all = Some (s1, out1, rest1)"
    by (cases "mainLoopPass exact_fpu ?s ?all") auto
  have h7: "\<not> serialCodeEntry ?all" by code_simp
  have h8: "serialCodeMatch ?s ?code" by code_simp
  have h9: "mainLoopPass exact_fpu ?s ?code \<noteq> None" by code_simp
  then obtain s2 out2 rest2 where p2: "mainLoopPass exact_fpu ?s ?code = Some (s2, out2, rest2)"
    by (cases "mainLoopPass exact_fpu ?s ?code") auto
  have k1: "stateOk ?a" by code_simp
  have k2: "\<not> keypadEvaluates ?a ?keys" by code_simp
  have k3: "alarmState ?a" by code_simp
  have m1: "stateOk ?b" by code_simp
  have m2: "keypadEvaluates ?b ?keys" by code_simp
  have m3: "codeSequence ?b = [of_bool (aButton ?keys), of_bool (bButton ?keys),
                               of_bool (cButton ?keys), of_bool (dButton ?keys)]" by code_simp
  note g = incorrect_code_indicator_gate [OF h1, of exact_fpu ?inps ?all]
  from g h2 h3 h4' have c1: "noKeypadEvaluation exact_fpu ?s ?inps"
    and c2: "incorrectCodeLed (the (mainLoop exact_fpu ?s ?inps))"
    by blast+
  from g p1 h5 h7 have "\<not> incorrectCodeLed s1"
    by blast
  with p1 have c3: "\<not> incorrectCodeLed ?t"
    by simp
  from incorrect_code_indicator_gate [OF h1, of exact_fpu ?inps ?code] p2 h8
  have "\<not> incorrectCodeLed s2"
    by blast
  with p2 have c4: "\<not> incorrectCodeLed (fst (the (mainLoopPass exact_fpu ?s ?code)))"
    by simp
  from incorrect_code_indicator_gate [OF k1, of exact_fpu "[]" ?keys] k2 k3
  have c5: "alarmState (alarmDeactivationUpdate ?a ?keys)"
    by simp
  from incorrect_code_indicator_gate [OF m1, of exact_fpu "[]" ?keys] m2 m3
  have c6: "\<not> alarmState (alarmDeactivationUpdate ?b ?keys)"
    by simp
  from h1 h2 h3 h4 c1 c2 h5 h6 c3 h8 h9 c4 k2 c5 m2 c6 show ?thesis
    by blast
qed

text \<open>
  C3 as the spec states it fails: with the indicator on, a pass in which the four
  buttons and the enter button are all released does not clear the indicator,
  and the matching keys entered in the next pass are not evaluated: the alarm
  stays active and the counter stays at 1.
\<close>

theorem released_buttons_do_not_clear_indicator:
  "incorrectCodeLed (the (main exact_fpu [quiet\<lparr>mq2 := False\<rparr>, quiet\<lparr>enterButton := True\<rparr>]))
   \<and> \<not> aButton quiet \<and> \<not> bButton quiet \<and> \<not> cButton quiet \<and> \<not> dButton quiet
   \<and> \<not> enterButton quiet
   \<and> incorrectCodeLed
        (the (main exact_fpu [quiet\<lparr>mq2 := False\<rparr>, quiet\<lparr>enterButton := True\<rparr>, quiet]))
   \<and> main exact_fpu [quiet\<lparr>mq2 := False\<rparr>, quiet\<lparr>enterButton := True\<rparr>, quiet,
        quiet\<lparr>aButton := True, bButton := True, enterButton := True\<rparr>] \<noteq> None
   \<and> alarmState
        (the (main exact_fpu [quiet\<lparr>mq2 := False\<rparr>, quiet\<lparr>enterButton := True\<rparr>, quiet,
           quiet\<lparr>aButton := True, bButton := True, enterButton := True\<rparr>]))
   \<and> numberOfIncorrectCodes
        (the (main exact_fpu [quiet\<lparr>mq2 := False\<rparr>, quiet\<lparr>enterButton := True\<rparr>, quiet,
           quiet\<lparr>aButton := True, bButton := True, enterButton := True\<rparr>])) = 1"
  by code_simp

subsection \<open>The blinking LED\<close>

lemma alarmOutputs_frame:
  "alarmState (alarmOutputs t) = alarmState t"
  "alarmState t \<Longrightarrow> gasDetectorState (alarmOutputs t) = gasDetectorState t"
  "alarmState t \<Longrightarrow> overTempDetectorState (alarmOutputs t) = overTempDetectorState t"
  by (cases "alarmState t"; simp add: alarmOutputs_on alarmOutputs_off Let_def)+

lemma alarmOutputs_blink:
  assumes "alarmState t"
  shows "gasDetectorState t \<and> overTempDetectorState t \<Longrightarrow>
           accumulatedTimeAlarm (alarmOutputs t) =
             (if 100 \<le>s accumulatedTimeAlarm t + 10 then 0 else accumulatedTimeAlarm t + 10)
           \<and> alarmLed (alarmOutputs t) =
             (if 100 \<le>s accumulatedTimeAlarm t + 10 then \<not> alarmLed t else alarmLed t)"
    and "gasDetectorState t \<and> \<not> overTempDetectorState t \<Longrightarrow>
           accumulatedTimeAlarm (alarmOutputs t) =
             (if 1000 \<le>s accumulatedTimeAlarm t + 10 then 0 else accumulatedTimeAlarm t + 10)
           \<and> alarmLed (alarmOutputs t) =
             (if 1000 \<le>s accumulatedTimeAlarm t + 10 then \<not> alarmLed t else alarmLed t)"
    and "\<not> gasDetectorState t \<and> overTempDetectorState t \<Longrightarrow>
           accumulatedTimeAlarm (alarmOutputs t) =
             (if 500 \<le>s accumulatedTimeAlarm t + 10 then 0 else accumulatedTimeAlarm t + 10)
           \<and> alarmLed (alarmOutputs t) =
             (if 500 \<le>s accumulatedTimeAlarm t + 10 then \<not> alarmLed t else alarmLed t)"
  using assms by (simp_all add: alarmOutputs_on Let_def)

lemma alarmActivationUpdate_outputs:
  obtains mid where "alarmActivationUpdate A s inp = alarmOutputs mid"
    and "accumulatedTimeAlarm mid = accumulatedTimeAlarm s"
    and "alarmLed mid = alarmLed s"
proof -
  obtain mid S where act: "alarmActivationUpdate A s inp = alarmOutputs mid"
    and mid: "mid = s\<lparr>lm35ReadingsArray := (lm35ReadingsArray s)[nat (lm35SampleIndex s) := lm35 inp],
              lm35SampleIndex := (if lm35SampleIndex s + 1 \<ge> 100 then 0 else lm35SampleIndex s + 1),
              lm35ReadingsSum := S,
              lm35ReadingsAverage := f_div A S (f_of_int A 100),
              lm35TempC := analogReadingScaledWithTheLM35Formula A (f_div A S (f_of_int A 100)),
              overTempDetector :=
                f_gt A (analogReadingScaledWithTheLM35Formula A (f_div A S (f_of_int A 100)))
                       (f_of_int A 50),
              gasDetectorState := (gasDetectorState s \<or> \<not> mq2 inp \<or> alarmTestButton inp),
              overTempDetectorState :=
                (overTempDetectorState s
                 \<or> f_gt A (analogReadingScaledWithTheLM35Formula A (f_div A S (f_of_int A 100)))
                          (f_of_int A 50)
                 \<or> alarmTestButton inp),
              alarmState :=
                (alarmState s \<or> \<not> mq2 inp
                 \<or> f_gt A (analogReadingScaledWithTheLM35Formula A (f_div A S (f_of_int A 100)))
                          (f_of_int A 50)
                 \<or> alarmTestButton inp)\<rparr>"
    by (rule alarmActivationUpdate_mid)
  from act show thesis
    by (rule that) (simp_all add: mid)
qed

text \<open>
  C5. In every pass that ends with the alarm active, the accumulated time is
  first increased by 10 ms. With both cause flags set the LED toggles, and the
  accumulated time returns to 0, when the increased value has reached 100 ms;
  with the gas flag alone, when it has reached 1000 ms; with the
  over-temperature flag alone, when it has reached 500 ms. Otherwise the LED
  keeps its phase and the accumulated time keeps the increased value.
\<close>

theorem blink_cadence_selection:
  "alarmState (alarmActivationUpdate A s inp) \<longrightarrow>
     (gasDetectorState (alarmActivationUpdate A s inp)
        \<and> overTempDetectorState (alarmActivationUpdate A s inp) \<longrightarrow>
      accumulatedTimeAlarm (alarmActivationUpdate A s inp) =
        (if 100 \<le>s accumulatedTimeAlarm s + 10 then 0 else accumulatedTimeAlarm s + 10)
      \<and> alarmLed (alarmActivationUpdate A s inp) =
        (if 100 \<le>s accumulatedTimeAlarm s + 10 then \<not> alarmLed s else alarmLed s))
   \<and> (gasDetectorState (alarmActivationUpdate A s inp)
        \<and> \<not> overTempDetectorState (alarmActivationUpdate A s inp) \<longrightarrow>
      accumulatedTimeAlarm (alarmActivationUpdate A s inp) =
        (if 1000 \<le>s accumulatedTimeAlarm s + 10 then 0 else accumulatedTimeAlarm s + 10)
      \<and> alarmLed (alarmActivationUpdate A s inp) =
        (if 1000 \<le>s accumulatedTimeAlarm s + 10 then \<not> alarmLed s else alarmLed s))
   \<and> (\<not> gasDetectorState (alarmActivationUpdate A s inp)
        \<and> overTempDetectorState (alarmActivationUpdate A s inp) \<longrightarrow>
      accumulatedTimeAlarm (alarmActivationUpdate A s inp) =
        (if 500 \<le>s accumulatedTimeAlarm s + 10 then 0 else accumulatedTimeAlarm s + 10)
      \<and> alarmLed (alarmActivationUpdate A s inp) =
        (if 500 \<le>s accumulatedTimeAlarm s + 10 then \<not> alarmLed s else alarmLed s))"
proof
  obtain mid where act: "alarmActivationUpdate A s inp = alarmOutputs mid"
    and acc: "accumulatedTimeAlarm mid = accumulatedTimeAlarm s"
    and led: "alarmLed mid = alarmLed s"
    by (rule alarmActivationUpdate_outputs)
  assume "alarmState (alarmActivationUpdate A s inp)"
  then have on: "alarmState mid"
    by (simp add: act alarmOutputs_frame)
  show "(gasDetectorState (alarmActivationUpdate A s inp)
        \<and> overTempDetectorState (alarmActivationUpdate A s inp) \<longrightarrow>
      accumulatedTimeAlarm (alarmActivationUpdate A s inp) =
        (if 100 \<le>s accumulatedTimeAlarm s + 10 then 0 else accumulatedTimeAlarm s + 10)
      \<and> alarmLed (alarmActivationUpdate A s inp) =
        (if 100 \<le>s accumulatedTimeAlarm s + 10 then \<not> alarmLed s else alarmLed s))
   \<and> (gasDetectorState (alarmActivationUpdate A s inp)
        \<and> \<not> overTempDetectorState (alarmActivationUpdate A s inp) \<longrightarrow>
      accumulatedTimeAlarm (alarmActivationUpdate A s inp) =
        (if 1000 \<le>s accumulatedTimeAlarm s + 10 then 0 else accumulatedTimeAlarm s + 10)
      \<and> alarmLed (alarmActivationUpdate A s inp) =
        (if 1000 \<le>s accumulatedTimeAlarm s + 10 then \<not> alarmLed s else alarmLed s))
   \<and> (\<not> gasDetectorState (alarmActivationUpdate A s inp)
        \<and> overTempDetectorState (alarmActivationUpdate A s inp) \<longrightarrow>
      accumulatedTimeAlarm (alarmActivationUpdate A s inp) =
        (if 500 \<le>s accumulatedTimeAlarm s + 10 then 0 else accumulatedTimeAlarm s + 10)
      \<and> alarmLed (alarmActivationUpdate A s inp) =
        (if 500 \<le>s accumulatedTimeAlarm s + 10 then \<not> alarmLed s else alarmLed s))"
    unfolding act alarmOutputs_frame(2,3) [OF on]
    using alarmOutputs_blink [OF on] unfolding acc led
    by blast
qed

text \<open>
  Nine passes with the test button pressed leave both flags set and 90 ms
  accumulated: the next pass toggles the LED. With the gas flag alone at 990 ms,
  and with the over-temperature flag alone at 490 ms, the next pass toggles too.
\<close>

theorem blink_cadence_selection_witness:
  "alarmState (alarmActivationUpdate exact_fpu
      (the (main exact_fpu (replicate 9 (quiet\<lparr>alarmTestButton := True\<rparr>)))) quiet)
   \<and> gasDetectorState (alarmActivationUpdate exact_fpu
      (the (main exact_fpu (replicate 9 (quiet\<lparr>alarmTestButton := True\<rparr>)))) quiet)
   \<and> overTempDetectorState (alarmActivationUpdate exact_fpu
      (the (main exact_fpu (replicate 9 (quiet\<lparr>alarmTestButton := True\<rparr>)))) quiet)
   \<and> accumulatedTimeAlarm (the (main exact_fpu (replicate 9 (quiet\<lparr>alarmTestButton := True\<rparr>)))) = 90
   \<and> accumulatedTimeAlarm (alarmActivationUpdate exact_fpu
      (the (main exact_fpu (replicate 9 (quiet\<lparr>alarmTestButton := True\<rparr>)))) quiet) = 0
   \<and> alarmLed (alarmActivationUpdate exact_fpu
      (the (main exact_fpu (replicate 9 (quiet\<lparr>alarmTestButton := True\<rparr>)))) quiet)
   \<and> alarmState (alarmActivationUpdate exact_fpu
      ((globalsInit exact_fpu)\<lparr>alarmState := True, gasDetectorState := True,
         accumulatedTimeAlarm := 990\<rparr>) quiet)
   \<and> gasDetectorState (alarmActivationUpdate exact_fpu
      ((globalsInit exact_fpu)\<lparr>alarmState := True, gasDetectorState := True,
         accumulatedTimeAlarm := 990\<rparr>) quiet)
   \<and> \<not> overTempDetectorState (alarmActivationUpdate exact_fpu
      ((globalsInit exact_fpu)\<lparr>alarmState := True, gasDetectorState := True,
         accumulatedTimeAlarm := 990\<rparr>) quiet)
   \<and> accumulatedTimeAlarm (alarmActivationUpdate exact_fpu
      ((globalsInit exact_fpu)\<lparr>alarmState := True, gasDetectorState := True,
         accumulatedTimeAlarm := 990\<rparr>) quiet) = 0
   \<and> alarmState (alarmActivationUpdate exact_fpu
      ((globalsInit exact_fpu)\<lparr>alarmState := True, overTempDetectorState := True,
         accumulatedTimeAlarm := 490\<rparr>) quiet)
   \<and> \<not> gasDetectorState (alarmActivationUpdate exact_fpu
      ((globalsInit exact_fpu)\<lparr>alarmState := True, overTempDetectorState := True,
         accumulatedTimeAlarm := 490\<rparr>) quiet)
   \<and> overTempDetectorState (alarmActivationUpdate exact_fpu
      ((globalsInit exact_fpu)\<lparr>alarmState := True, overTempDetectorState := True,
         accumulatedTimeAlarm := 490\<rparr>) quiet)
   \<and> accumulatedTimeAlarm (alarmActivationUpdate exact_fpu
      ((globalsInit exact_fpu)\<lparr>alarmState := True, overTempDetectorState := True,
         accumulatedTimeAlarm := 490\<rparr>) quiet) = 0"
proof -
  let ?s1 = "the (main exact_fpu (replicate 9 (quiet\<lparr>alarmTestButton := True\<rparr>)))"
  let ?s2 = "(globalsInit exact_fpu)\<lparr>alarmState := True, gasDetectorState := True,
         accumulatedTimeAlarm := 990\<rparr>"
  let ?s3 = "(globalsInit exact_fpu)\<lparr>alarmState := True, overTempDetectorState := True,
         accumulatedTimeAlarm := 490\<rparr>"
  have a1: "alarmState (alarmActivationUpdate exact_fpu ?s1 quiet)" by code_simp
  have a2: "gasDetectorState (alarmActivationUpdate exact_fpu ?s1 quiet)" by code_simp
  have a3: "overTempDetectorState (alarmActivationUpdate exact_fpu ?s1 quiet)" by code_simp
  have a4: "accumulatedTimeAlarm ?s1 = 90" by code_simp
  have a5: "\<not> alarmLed ?s1" by code_simp
  have b1: "alarmState (alarmActivationUpdate exact_fpu ?s2 quiet)" by code_simp
  have b2: "gasDetectorState (alarmActivationUpdate exact_fpu ?s2 quiet)" by code_simp
  have b3: "\<not> overTempDetectorState (alarmActivationUpdate exact_fpu ?s2 quiet)" by code_simp
  have b4: "accumulatedTimeAlarm ?s2 = 990" by simp
  have c1: "alarmState (alarmActivationUpdate exact_fpu ?s3 quiet)" by code_simp
  have c2: "\<not> gasDetectorState (alarmActivationUpdate exact_fpu ?s3 quiet)" by code_simp
  have c3: "overTempDetectorState (alarmActivationUpdate exact_fpu ?s3 quiet)" by code_simp
  have c4: "accumulatedTimeAlarm ?s3 = 490" by simp
  from blink_cadence_selection [of exact_fpu ?s1 quiet] a1 a2 a3 a4 a5
  have a: "accumulatedTimeAlarm (alarmActivationUpdate exact_fpu ?s1 quiet) = 0"
    "alarmLed (alarmActivationUpdate exact_fpu ?s1 quiet)"
    by simp_all
  from blink_cadence_selection [of exact_fpu ?s2 quiet] b1 b2 b3 b4
  have b: "accumulatedTimeAlarm (alarmActivationUpdate exact_fpu ?s2 quiet) = 0"
    by simp
  from blink_cadence_selection [of exact_fpu ?s3 quiet] c1 c2 c3 c4
  have c: "accumulatedTimeAlarm (alarmActivationUpdate exact_fpu ?s3 quiet) = 0"
    by simp
  from a1 a2 a3 a4 a b1 b2 b3 b c1 c2 c3 c show ?thesis by blast
qed

subsection \<open>The temperature filter\<close>

lemma exact_fpu_simps:
  "f_of_double exact_fpu x = x" "d_of_float exact_fpu x = x" "f_of_int exact_fpu i = real_of_int i"
  "d_lit exact_fpu r = r" "f_add exact_fpu = (+)" "f_div exact_fpu = (/)"
  "f_gt exact_fpu x y = (x > y)" "d_add exact_fpu = (+)" "d_mul exact_fpu = (*)"
  "d_div exact_fpu = (/)"
  by (simp_all add: exact_fpu_def)

lemma foldl_add_exact: "foldl (+) a xs = a + sum_list (xs :: real list)"
  by (induction xs arbitrary: a) simp_all

text \<open>
  C8. From a state whose sample buffer has its 100 slots and whose cursor is
  inside it, a pass of \<open>alarmActivationUpdate\<close> stores the reading at the cursor,
  advances the cursor by one modulo 100, so that it is again inside the buffer,
  and leaves in \<open>lm35TempC\<close> the sum of the 100 slots of the updated buffer, added
  up from slot 0 starting with 0, divided by 100, multiplied by 3.3 and divided by
  0.01, in the machine's arithmetic. The cursor is inside the buffer after any
  run of passes.
\<close>

theorem temperature_filter:
  assumes "stateOk s"
  shows "lm35ReadingsArray (alarmActivationUpdate A s inp) =
           (lm35ReadingsArray s)[nat (lm35SampleIndex s) := lm35 inp]
       \<and> length (lm35ReadingsArray (alarmActivationUpdate A s inp)) = 100
       \<and> lm35SampleIndex (alarmActivationUpdate A s inp) = (lm35SampleIndex s + 1) mod 100
       \<and> 0 \<le> lm35SampleIndex (alarmActivationUpdate A s inp)
       \<and> lm35SampleIndex (alarmActivationUpdate A s inp) < 100
       \<and> lm35TempC (alarmActivationUpdate A s inp) =
           f_of_double A
             (d_div A
               (d_mul A
                 (d_of_float A
                   (f_div A
                     (foldl (f_add A) (f_of_double A (d_lit A 0))
                        (lm35ReadingsArray (alarmActivationUpdate A s inp)))
                     (f_of_int A 100)))
                 (d_lit A 3.3))
               (d_lit A 0.01))
       \<and> (\<forall>s'. mainLoop A s inps = Some s' \<longrightarrow>
             0 \<le> lm35SampleIndex s' \<and> lm35SampleIndex s' < 100)"
proof -
  obtain mid S where act: "alarmActivationUpdate A s inp = alarmOutputs mid"
    and mid: "mid = s\<lparr>lm35ReadingsArray := (lm35ReadingsArray s)[nat (lm35SampleIndex s) := lm35 inp],
              lm35SampleIndex := (if lm35SampleIndex s + 1 \<ge> 100 then 0 else lm35SampleIndex s + 1),
              lm35ReadingsSum := S,
              lm35ReadingsAverage := f_div A S (f_of_int A 100),
              lm35TempC := analogReadingScaledWithTheLM35Formula A (f_div A S (f_of_int A 100)),
              overTempDetector :=
                f_gt A (analogReadingScaledWithTheLM35Formula A (f_div A S (f_of_int A 100)))
                       (f_of_int A 50),
              gasDetectorState := (gasDetectorState s \<or> \<not> mq2 inp \<or> alarmTestButton inp),
              overTempDetectorState :=
                (overTempDetectorState s
                 \<or> f_gt A (analogReadingScaledWithTheLM35Formula A (f_div A S (f_of_int A 100)))
                          (f_of_int A 50)
                 \<or> alarmTestButton inp),
              alarmState :=
                (alarmState s \<or> \<not> mq2 inp
                 \<or> f_gt A (analogReadingScaledWithTheLM35Formula A (f_div A S (f_of_int A 100)))
                          (f_of_int A 50)
                 \<or> alarmTestButton inp)\<rparr>"
    and S: "length (lm35ReadingsArray s) = 100 \<longrightarrow>
         S = foldl (f_add A) (f_of_double A (d_lit A 0))
               ((lm35ReadingsArray s)[nat (lm35SampleIndex s) := lm35 inp])"
    by (rule alarmActivationUpdate_mid)
  have ok: "length (lm35ReadingsArray s) = 100" "0 \<le> lm35SampleIndex s" "lm35SampleIndex s < 100"
    using assms by (simp_all add: stateOk_def)
  have out: "lm35ReadingsArray (alarmOutputs t) = lm35ReadingsArray t"
    "lm35SampleIndex (alarmOutputs t) = lm35SampleIndex t"
    "lm35TempC (alarmOutputs t) = lm35TempC t" for t :: "'a state"
    by (cases "alarmState t"; simp add: alarmOutputs_on alarmOutputs_off Let_def)+
  have arr: "lm35ReadingsArray (alarmActivationUpdate A s inp) =
           (lm35ReadingsArray s)[nat (lm35SampleIndex s) := lm35 inp]"
    by (simp add: act out mid)
  have "(if lm35SampleIndex s + 1 \<ge> 100 then 0 else lm35SampleIndex s + 1)
      = (lm35SampleIndex s + 1) mod 100"
  proof (cases "lm35SampleIndex s = 99")
    case True
    then show ?thesis by simp
  next
    case False
    with ok show ?thesis by simp
  qed
  then have idx: "lm35SampleIndex (alarmActivationUpdate A s inp) = (lm35SampleIndex s + 1) mod 100"
    by (simp add: act out mid)
  have temp: "lm35TempC (alarmActivationUpdate A s inp) =
           f_of_double A
             (d_div A
               (d_mul A
                 (d_of_float A
                   (f_div A
                     (foldl (f_add A) (f_of_double A (d_lit A 0))
                        ((lm35ReadingsArray s)[nat (lm35SampleIndex s) := lm35 inp]))
                     (f_of_int A 100)))
                 (d_lit A 3.3))
               (d_lit A 0.01))"
    using S ok(1) by (simp add: act out mid analogReadingScaledWithTheLM35Formula_def)
  have run: "0 \<le> lm35SampleIndex s' \<and> lm35SampleIndex s' < 100"
    if "mainLoop A s inps = Some s'" for s'
    using stateOk_mainLoop [OF assms that] by (simp add: stateOk_def)
  from arr idx temp run ok show ?thesis
    by simp
qed

text \<open>
  With the cursor on the last slot and exact arithmetic, a reading of 0.1 into an
  empty buffer moves the cursor to 0 and gives 0.1 / 100 * 3.3 / 0.01 = 0.33 degrees.
\<close>

theorem temperature_filter_witness:
  "stateOk ((globalsInit exact_fpu)\<lparr>lm35SampleIndex := 99\<rparr>)
   \<and> lm35ReadingsArray (alarmActivationUpdate exact_fpu
        ((globalsInit exact_fpu)\<lparr>lm35SampleIndex := 99\<rparr>) quiet) = replicate 99 0 @ [0.1]
   \<and> lm35SampleIndex (alarmActivationUpdate exact_fpu
        ((globalsInit exact_fpu)\<lparr>lm35SampleIndex := 99\<rparr>) quiet) = 0
   \<and> lm35TempC (alarmActivationUpdate exact_fpu
        ((globalsInit exact_fpu)\<lparr>lm35SampleIndex := 99\<rparr>) quiet) = 0.33
   \<and> mainLoop exact_fpu ((globalsInit exact_fpu)\<lparr>lm35SampleIndex := 99\<rparr>) [quiet, quiet] \<noteq> None
   \<and> lm35SampleIndex (the (mainLoop exact_fpu
        ((globalsInit exact_fpu)\<lparr>lm35SampleIndex := 99\<rparr>) [quiet, quiet])) < 100"
proof -
  let ?s = "(globalsInit exact_fpu)\<lparr>lm35SampleIndex := 99\<rparr>"
  have h1: "stateOk ?s" by code_simp
  have h2: "mainLoop exact_fpu ?s [quiet, quiet] \<noteq> None" by code_simp
  then have h3: "mainLoop exact_fpu ?s [quiet, quiet]
      = Some (the (mainLoop exact_fpu ?s [quiet, quiet]))"
    by simp
  have arr: "(lm35ReadingsArray ?s)[nat (lm35SampleIndex ?s) := lm35 quiet] = replicate 99 0 @ [0.1]"
    by code_simp
  have sum: "foldl (+) 0 (replicate 99 0 @ [0.1 :: real]) = 0.1"
    by (simp add: foldl_add_exact sum_list_replicate)
  note t = temperature_filter [OF h1, of exact_fpu quiet "[quiet, quiet]"]
  from t arr have a: "lm35ReadingsArray (alarmActivationUpdate exact_fpu ?s quiet)
      = replicate 99 0 @ [0.1]"
    by simp
  from t have i: "lm35SampleIndex (alarmActivationUpdate exact_fpu ?s quiet) = 0"
    by simp
  from t have "lm35TempC (alarmActivationUpdate exact_fpu ?s quiet) =
      foldl (+) 0 (lm35ReadingsArray (alarmActivationUpdate exact_fpu ?s quiet)) / 100 * 3.3 / 0.01"
    by (simp add: exact_fpu_simps)
  then have c: "lm35TempC (alarmActivationUpdate exact_fpu ?s quiet) = 0.33"
    unfolding a sum by simp
  from t h3 have r: "lm35SampleIndex (the (mainLoop exact_fpu ?s [quiet, quiet])) < 100"
    by blast
  from h1 a i c h2 r show ?thesis by blast
qed

text \<open>
  In exact arithmetic the value is the arithmetic mean of the 100 slots, times
  3.3, divided by 0.01.
\<close>

lemma lm35TempC_exact:
  assumes "stateOk s"
  shows "lm35TempC (alarmActivationUpdate exact_fpu s inp) =
           sum_list (lm35ReadingsArray (alarmActivationUpdate exact_fpu s inp))
             / real (length (lm35ReadingsArray (alarmActivationUpdate exact_fpu s inp)))
             * 3.3 / 0.01"
proof -
  obtain mid S where act: "alarmActivationUpdate exact_fpu s inp = alarmOutputs mid"
    and mid: "mid = s\<lparr>lm35ReadingsArray := (lm35ReadingsArray s)[nat (lm35SampleIndex s) := lm35 inp],
              lm35SampleIndex := (if lm35SampleIndex s + 1 \<ge> 100 then 0 else lm35SampleIndex s + 1),
              lm35ReadingsSum := S,
              lm35ReadingsAverage := f_div exact_fpu S (f_of_int exact_fpu 100),
              lm35TempC := analogReadingScaledWithTheLM35Formula exact_fpu
                (f_div exact_fpu S (f_of_int exact_fpu 100)),
              overTempDetector :=
                f_gt exact_fpu (analogReadingScaledWithTheLM35Formula exact_fpu
                    (f_div exact_fpu S (f_of_int exact_fpu 100)))
                  (f_of_int exact_fpu 50),
              gasDetectorState := (gasDetectorState s \<or> \<not> mq2 inp \<or> alarmTestButton inp),
              overTempDetectorState :=
                (overTempDetectorState s
                 \<or> f_gt exact_fpu (analogReadingScaledWithTheLM35Formula exact_fpu
                       (f_div exact_fpu S (f_of_int exact_fpu 100)))
                     (f_of_int exact_fpu 50)
                 \<or> alarmTestButton inp),
              alarmState :=
                (alarmState s \<or> \<not> mq2 inp
                 \<or> f_gt exact_fpu (analogReadingScaledWithTheLM35Formula exact_fpu
                       (f_div exact_fpu S (f_of_int exact_fpu 100)))
                     (f_of_int exact_fpu 50)
                 \<or> alarmTestButton inp)\<rparr>"
    and S: "length (lm35ReadingsArray s) = 100 \<longrightarrow>
         S = foldl (f_add exact_fpu) (f_of_double exact_fpu (d_lit exact_fpu 0))
               ((lm35ReadingsArray s)[nat (lm35SampleIndex s) := lm35 inp])"
    by (rule alarmActivationUpdate_mid)
  have ok: "length (lm35ReadingsArray s) = 100"
    using assms by (simp add: stateOk_def)
  have out: "lm35ReadingsArray (alarmOutputs t) = lm35ReadingsArray t"
    "lm35TempC (alarmOutputs t) = lm35TempC t" for t :: "real state"
    by (cases "alarmState t"; simp add: alarmOutputs_on alarmOutputs_off Let_def)+
  from S ok have "S = sum_list ((lm35ReadingsArray s)[nat (lm35SampleIndex s) := lm35 inp])"
    by (simp add: exact_fpu_simps foldl_add_exact)
  then show ?thesis
    using ok
    by (simp add: act out mid analogReadingScaledWithTheLM35Formula_def exact_fpu_simps)
qed

subsection \<open>The blink timer across a deactivation\<close>

lemma alarmOutputs_inactive:
  assumes "\<not> alarmState t"
  shows "\<not> alarmLed (alarmOutputs t)" "\<not> gasDetectorState (alarmOutputs t)"
    "\<not> overTempDetectorState (alarmOutputs t)" "\<not> sirenPinIsOutput (alarmOutputs t)"
    "accumulatedTimeAlarm (alarmOutputs t) = accumulatedTimeAlarm t"
  using assms by (simp_all add: alarmOutputs_off)

lemma alarmOutputs_active:
  assumes "alarmState t"
  shows "accumulatedTimeAlarm (alarmOutputs t) = 0
       \<or> accumulatedTimeAlarm (alarmOutputs t) = accumulatedTimeAlarm t + 10"
  using assms by (simp add: alarmOutputs_on Let_def)

text \<open>
  C4, as the code has it. A deactivation, by the keypad or by the serial command,
  changes neither the accumulated time nor the LED. A pass of
  \<open>alarmActivationUpdate\<close> that ends with the alarm inactive forces the LED off,
  clears both cause flags and switches the siren pin to input, and leaves the
  accumulated time as it was; a pass that ends with the alarm active leaves the
  accumulated time at 0 or at its former value plus 10 ms. So the timing of the
  next activation continues from the value the accumulated time had when the
  alarm was deactivated.
\<close>

theorem blink_timer_kept_across_deactivation:
  "accumulatedTimeAlarm (alarmDeactivationUpdate s inp) = accumulatedTimeAlarm s
   \<and> alarmLed (alarmDeactivationUpdate s inp) = alarmLed s
   \<and> (\<forall>s' out rest. uartTask A s inp = Some (s', out, rest) \<longrightarrow>
         accumulatedTimeAlarm s' = accumulatedTimeAlarm s \<and> alarmLed s' = alarmLed s)
   \<and> (\<not> alarmState (alarmActivationUpdate A s inp) \<longrightarrow>
         \<not> alarmLed (alarmActivationUpdate A s inp)
         \<and> \<not> gasDetectorState (alarmActivationUpdate A s inp)
         \<and> \<not> overTempDetectorState (alarmActivationUpdate A s inp)
         \<and> \<not> sirenPinIsOutput (alarmActivationUpdate A s inp)
         \<and> accumulatedTimeAlarm (alarmActivationUpdate A s inp) = accumulatedTimeAlarm s)
   \<and> (alarmState (alarmActivationUpdate A s inp) \<longrightarrow>
         accumulatedTimeAlarm (alarmActivationUpdate A s inp) = 0
         \<or> accumulatedTimeAlarm (alarmActivationUpdate A s inp) = accumulatedTimeAlarm s + 10)"
proof -
  obtain mid where act: "alarmActivationUpdate A s inp = alarmOutputs mid"
    and acc: "accumulatedTimeAlarm mid = accumulatedTimeAlarm s"
    by (rule alarmActivationUpdate_outputs)
  have off: "\<not> alarmLed (alarmActivationUpdate A s inp)
         \<and> \<not> gasDetectorState (alarmActivationUpdate A s inp)
         \<and> \<not> overTempDetectorState (alarmActivationUpdate A s inp)
         \<and> \<not> sirenPinIsOutput (alarmActivationUpdate A s inp)
         \<and> accumulatedTimeAlarm (alarmActivationUpdate A s inp) = accumulatedTimeAlarm s"
    if "\<not> alarmState (alarmActivationUpdate A s inp)"
  proof -
    from that have "\<not> alarmState mid"
      by (simp add: act alarmOutputs_frame)
    then show ?thesis
      unfolding act by (simp add: alarmOutputs_inactive acc)
  qed
  have on: "accumulatedTimeAlarm (alarmActivationUpdate A s inp) = 0
         \<or> accumulatedTimeAlarm (alarmActivationUpdate A s inp) = accumulatedTimeAlarm s + 10"
    if "alarmState (alarmActivationUpdate A s inp)"
  proof -
    from that have "alarmState mid"
      by (simp add: act alarmOutputs_frame)
    from alarmOutputs_active [OF this] show ?thesis
      unfolding act acc .
  qed
  have uart: "accumulatedTimeAlarm s' = accumulatedTimeAlarm s \<and> alarmLed s' = alarmLed s"
    if "uartTask A s inp = Some (s', out, rest)" for s' out rest
    using uartTask_frame(2,3) [OF that] by simp
  from off on uart show ?thesis
    by (simp add: alarmDeactivationUpdate_frame)
qed

text \<open>
  Ten passes with the test button pressed and the matching keys with enter: the
  alarm is off with the LED on and 10 ms accumulated. The next pass with no cause
  forces the LED off and keeps the 10 ms; a pass with gas instead makes it 20 ms.
  The matching serial code at that state leaves the 10 ms too.
\<close>

theorem blink_timer_kept_across_deactivation_witness:
  "\<not> alarmState (alarmActivationUpdate exact_fpu
       (the (main exact_fpu (replicate 10 (quiet\<lparr>alarmTestButton := True\<rparr>)
          @ [quiet\<lparr>aButton := True, bButton := True, enterButton := True\<rparr>]))) quiet)
   \<and> accumulatedTimeAlarm
       (the (main exact_fpu (replicate 10 (quiet\<lparr>alarmTestButton := True\<rparr>)
          @ [quiet\<lparr>aButton := True, bButton := True, enterButton := True\<rparr>]))) = 10
   \<and> alarmLed
       (the (main exact_fpu (replicate 10 (quiet\<lparr>alarmTestButton := True\<rparr>)
          @ [quiet\<lparr>aButton := True, bButton := True, enterButton := True\<rparr>])))
   \<and> \<not> alarmLed (alarmActivationUpdate exact_fpu
       (the (main exact_fpu (replicate 10 (quiet\<lparr>alarmTestButton := True\<rparr>)
          @ [quiet\<lparr>aButton := True, bButton := True, enterButton := True\<rparr>]))) quiet)
   \<and> accumulatedTimeAlarm (alarmActivationUpdate exact_fpu
       (the (main exact_fpu (replicate 10 (quiet\<lparr>alarmTestButton := True\<rparr>)
          @ [quiet\<lparr>aButton := True, bButton := True, enterButton := True\<rparr>]))) quiet) = 10
   \<and> alarmState (alarmActivationUpdate exact_fpu
       (the (main exact_fpu (replicate 10 (quiet\<lparr>alarmTestButton := True\<rparr>)
          @ [quiet\<lparr>aButton := True, bButton := True, enterButton := True\<rparr>])))
       (quiet\<lparr>mq2 := False\<rparr>))
   \<and> accumulatedTimeAlarm (alarmActivationUpdate exact_fpu
       (the (main exact_fpu (replicate 10 (quiet\<lparr>alarmTestButton := True\<rparr>)
          @ [quiet\<lparr>aButton := True, bButton := True, enterButton := True\<rparr>])))
       (quiet\<lparr>mq2 := False\<rparr>)) = 20
   \<and> uartTask exact_fpu
       (the (main exact_fpu (replicate 10 (quiet\<lparr>alarmTestButton := True\<rparr>)
          @ [quiet\<lparr>aButton := True, bButton := True, enterButton := True\<rparr>])))
       (quiet\<lparr>uartRx := ''41100''\<rparr>) \<noteq> None
   \<and> accumulatedTimeAlarm (fst (the (uartTask exact_fpu
       (the (main exact_fpu (replicate 10 (quiet\<lparr>alarmTestButton := True\<rparr>)
          @ [quiet\<lparr>aButton := True, bButton := True, enterButton := True\<rparr>])))
       (quiet\<lparr>uartRx := ''41100''\<rparr>)))) = 10"
proof -
  let ?s = "the (main exact_fpu (replicate 10 (quiet\<lparr>alarmTestButton := True\<rparr>)
          @ [quiet\<lparr>aButton := True, bButton := True, enterButton := True\<rparr>]))"
  let ?gas = "quiet\<lparr>mq2 := False\<rparr>"
  let ?code = "quiet\<lparr>uartRx := ''41100''\<rparr>"
  have h1: "\<not> alarmState (alarmActivationUpdate exact_fpu ?s quiet)" by code_simp
  have h2: "accumulatedTimeAlarm ?s = 10" by code_simp
  have h3: "alarmLed ?s" by code_simp
  have h4: "alarmState (alarmActivationUpdate exact_fpu ?s ?gas)" by code_simp
  have h5: "accumulatedTimeAlarm (alarmActivationUpdate exact_fpu ?s ?gas) \<noteq> 0" by code_simp
  have h6: "uartTask exact_fpu ?s ?code \<noteq> None" by code_simp
  from blink_timer_kept_across_deactivation [of ?s quiet exact_fpu] h1 h2
  have a: "\<not> alarmLed (alarmActivationUpdate exact_fpu ?s quiet)"
    "accumulatedTimeAlarm (alarmActivationUpdate exact_fpu ?s quiet) = 10"
    by simp_all
  from blink_timer_kept_across_deactivation [of ?s ?gas exact_fpu] h2 h4 h5
  have b: "accumulatedTimeAlarm (alarmActivationUpdate exact_fpu ?s ?gas) = 20"
    by simp
  from blink_timer_kept_across_deactivation [of ?s ?code exact_fpu] h2 h6
  have c: "accumulatedTimeAlarm (fst (the (uartTask exact_fpu ?s ?code))) = 10"
    by auto
  from h1 h2 h3 h4 h6 a b c show ?thesis by blast
qed

text \<open>
  C4 as the spec states it fails. After ten passes with the test button pressed
  the alarm is active; the matching keys with enter switch it off, and at the end
  of that pass the accumulated time is 10 ms, not 0, and the LED is still on. A
  pass with no cause keeps the 10 ms, and the pass in which gas activates the
  alarm again ends with 20 ms accumulated.
\<close>

theorem deactivation_does_not_zero_blink_timer:
  "alarmState (the (main exact_fpu (replicate 10 (quiet\<lparr>alarmTestButton := True\<rparr>))))
   \<and> main exact_fpu (replicate 10 (quiet\<lparr>alarmTestButton := True\<rparr>)
        @ [quiet\<lparr>aButton := True, bButton := True, enterButton := True\<rparr>, quiet,
           quiet\<lparr>mq2 := False\<rparr>]) \<noteq> None
   \<and> \<not> alarmState (the (main exact_fpu (replicate 10 (quiet\<lparr>alarmTestButton := True\<rparr>)
        @ [quiet\<lparr>aButton := True, bButton := True, enterButton := True\<rparr>])))
   \<and> accumulatedTimeAlarm (the (main exact_fpu (replicate 10 (quiet\<lparr>alarmTestButton := True\<rparr>)
        @ [quiet\<lparr>aButton := True, bButton := True, enterButton := True\<rparr>]))) = 10
   \<and> alarmLed (the (main exact_fpu (replicate 10 (quiet\<lparr>alarmTestButton := True\<rparr>)
        @ [quiet\<lparr>aButton := True, bButton := True, enterButton := True\<rparr>])))
   \<and> \<not> alarmState (the (main exact_fpu (replicate 10 (quiet\<lparr>alarmTestButton := True\<rparr>)
        @ [quiet\<lparr>aButton := True, bButton := True, enterButton := True\<rparr>, quiet])))
   \<and> accumulatedTimeAlarm (the (main exact_fpu (replicate 10 (quiet\<lparr>alarmTestButton := True\<rparr>)
        @ [quiet\<lparr>aButton := True, bButton := True, enterButton := True\<rparr>, quiet]))) = 10
   \<and> alarmState (the (main exact_fpu (replicate 10 (quiet\<lparr>alarmTestButton := True\<rparr>)
        @ [quiet\<lparr>aButton := True, bButton := True, enterButton := True\<rparr>, quiet,
           quiet\<lparr>mq2 := False\<rparr>])))
   \<and> accumulatedTimeAlarm (the (main exact_fpu (replicate 10 (quiet\<lparr>alarmTestButton := True\<rparr>)
        @ [quiet\<lparr>aButton := True, bButton := True, enterButton := True\<rparr>, quiet,
           quiet\<lparr>mq2 := False\<rparr>]))) = 20"
  by code_simp

subsection \<open>The lockout and the serial command\<close>

text \<open>
  C1 at a concrete run. Gas sets the alarm off and five wrong codes are sent
  with the command '4': the counter is 5 and the alarm is active. A sixth wrong
  code is evaluated all the same, the counter becomes 6. The matching code sent
  instead is evaluated too: it resets the counter to 0 and switches the alarm
  off, while the system-blocked indicator, set at the start of that pass, is on.
\<close>

theorem serial_code_evaluated_after_lockout:
  "numberOfIncorrectCodes (the (main exact_fpu
      (quiet\<lparr>mq2 := False\<rparr> # replicate 5 (quiet\<lparr>uartRx := ''40000''\<rparr>)))) = 5
   \<and> alarmState (the (main exact_fpu
      (quiet\<lparr>mq2 := False\<rparr> # replicate 5 (quiet\<lparr>uartRx := ''40000''\<rparr>))))
   \<and> main exact_fpu
      (quiet\<lparr>mq2 := False\<rparr> # replicate 5 (quiet\<lparr>uartRx := ''40000''\<rparr>)
         @ [quiet\<lparr>uartRx := ''40000''\<rparr>]) \<noteq> None
   \<and> numberOfIncorrectCodes (the (main exact_fpu
      (quiet\<lparr>mq2 := False\<rparr> # replicate 5 (quiet\<lparr>uartRx := ''40000''\<rparr>)
         @ [quiet\<lparr>uartRx := ''40000''\<rparr>]))) = 6
   \<and> main exact_fpu
      (quiet\<lparr>mq2 := False\<rparr> # replicate 5 (quiet\<lparr>uartRx := ''40000''\<rparr>)
         @ [quiet\<lparr>uartRx := ''41100''\<rparr>]) \<noteq> None
   \<and> numberOfIncorrectCodes (the (main exact_fpu
      (quiet\<lparr>mq2 := False\<rparr> # replicate 5 (quiet\<lparr>uartRx := ''40000''\<rparr>)
         @ [quiet\<lparr>uartRx := ''41100''\<rparr>]))) = 0
   \<and> \<not> alarmState (the (main exact_fpu
      (quiet\<lparr>mq2 := False\<rparr> # replicate 5 (quiet\<lparr>uartRx := ''40000''\<rparr>)
         @ [quiet\<lparr>uartRx := ''41100''\<rparr>])))
   \<and> systemBlockedLed (the (main exact_fpu
      (quiet\<lparr>mq2 := False\<rparr> # replicate 5 (quiet\<lparr>uartRx := ''40000''\<rparr>)
         @ [quiet\<lparr>uartRx := ''41100''\<rparr>])))"
  by code_simp

end
